theory Spec2Isabelle
  imports Complex_Main "HOL-Library.Multiset"
begin

section \<open>The ordered-table comparator of parquet\_compare\_ordered\_table.py\<close>

text \<open>
  The comparator works on pandas data frames. The embedding below fixes the fragment of
  pandas and numpy that the function \<open>compare_data\<close> uses:
  \<^item> a cell is a missing value, a finite number (read as the rational it denotes: float
    rounding and int64 wrap-around are not modelled), a string, or a one-dimensional numpy
    array of integers. There are two missing values, and both answer \<open>isnull\<close>:
    \<open>NaNV\<close> is the NaN of a float64 column, \<open>NoneV\<close> the missing value of an object
    column (\<open>None\<close>, or the one shared \<open>nan\<close> object that \<open>read_csv\<close> stores);
  \<^item> a column carries a declared element type; \<open>dtype == int\<close> holds for int64 only and
    \<open>dtype == float\<close> for float64 only (numpy on Linux);
  \<^item> a loaded table has unique column names and the default index \<open>0, 1, ...\<close>;
  \<^item> a data frame is kept row by row, each row with its index label, so that the
    label-based operations of the source (\<open>.loc\<close>, \<open>set(df.index)\<close>) read as written;
  \<^item> pandas and Python do not agree on when two labels are the same. For pandas
    (\<open>duplicated\<close>, \<open>.loc\<close>, joins) a NaN label is a label like any other; in
    \<open>equals\<close> all missing values are alike; in a Python \<open>set\<close> a NaN that comes out of
    a float64 index is a fresh object and equals nothing, not even itself. The three
    notions are kept apart below (\<open>=\<close>, \<open>cell_equiv\<close>, \<open>py_eq\<close>);
  \<^item> where Python iterates over a \<open>set\<close>, the model lists the elements in the order of
    the left operand; \<open>sorted\<close> is read as an insertion sort;
  \<^item> every exception the source can raise is a value of type \<open>error\<close>. \<open>Unmodelled\<close>
    marks the one operation that the embedding does not follow: comparing and subtracting
    a number and an array cell, which only a column declared int64 or float64 against a
    column of arrays can reach.
  File loading (\<open>load_file\<close>), the \<open>file_name\<close> field and the progress messages are
  outside the embedding: \<open>compare_data\<close> starts from the two loaded tables.
\<close>

datatype error =
  AttributeError | KeyError | AxisError | TypeError | ValueError | ZeroDivisionError | Unmodelled

datatype dtype = Int64 | Float64 | Object | OtherDtype

datatype cell = NoneV | NaNV | Num rat | Str string | Arr "int list"

definition isnull :: "cell \<Rightarrow> bool" where
  "isnull c = (c = NoneV \<or> c = NaNV)"

type_synonym key = "cell list"

record table =
  t_columns :: "(string \<times> dtype) list"
  t_rows :: "cell list list"

record dataframe =
  df_columns :: "(string \<times> dtype) list"
  df_rows :: "(key \<times> cell list) list"

datatype pctval = Finite rat | Infinite | NaN

record mismatch_table =
  md_rows :: "(key \<times> cell \<times> cell) list"
  md_pct :: "pctval list option"

record ColumnResult =
  dtype_match :: bool
  left_dtype :: dtype
  right_dtype :: dtype
  mismatch_percent :: rat
  mismatch_number :: nat
  mismatch_data :: mismatch_table

record CompareResult =
  match :: bool
  data_match :: bool
  right_duplicate :: bool
  left_duplicate :: bool
  left_only_columns :: "string list option"
  right_only_columns :: "string list option"
  index_match :: bool
  left_index_duplicates :: "(key \<times> nat) list option"
  right_index_duplicates :: "(key \<times> nat) list option"
  common_index_count :: nat
  left_index_count :: nat
  right_index_count :: nat
  left_only_indexes :: "key list"
  right_only_indexes :: "key list"
  column_results :: "(string \<times> ColumnResult) list"

definition new_result :: CompareResult where
  "new_result = \<lparr> match = True, data_match = True, right_duplicate = False,
     left_duplicate = False, left_only_columns = None, right_only_columns = None,
     index_match = True, left_index_duplicates = None, right_index_duplicates = None,
     common_index_count = 0, left_index_count = 0, right_index_count = 0,
     left_only_indexes = [], right_only_indexes = [], column_results = [] \<rparr>"

subsection \<open>Columns, labels and rows\<close>

definition names :: "(string \<times> dtype) list \<Rightarrow> string list" where
  "names cs = map fst cs"

fun col_pos :: "(string \<times> dtype) list \<Rightarrow> string \<Rightarrow> nat option" where
  "col_pos [] c = None"
| "col_pos (x # xs) c =
     (if fst x = c then Some 0
      else (case col_pos xs c of None \<Rightarrow> None | Some j \<Rightarrow> Some (Suc j)))"

definition keys :: "dataframe \<Rightarrow> key list" where
  "keys df = map fst (df_rows df)"

fun range_index :: "nat \<Rightarrow> 'a list \<Rightarrow> (key \<times> 'a) list" where
  "range_index i [] = []"
| "range_index i (r # rs) = ([Num (of_nat i)], r) # range_index (Suc i) rs"

definition loaded :: "table \<Rightarrow> dataframe" where
  "loaded t = \<lparr> df_columns = t_columns t, df_rows = range_index 0 (t_rows t) \<rparr>"

subsection \<open>Pre-normalization (lines 108 to 115)\<close>

text \<open>
  \<open>df.col[0] = np.sort(df.col[0])\<close>: the attribute access raises AttributeError when the
  table has no such column, the label \<open>0\<close> raises KeyError when the table has no row, and
  \<open>np.sort\<close> raises AxisError on a cell that is not an array. Only the cell of the row
  labelled \<open>0\<close> is read and written.
\<close>

definition np_sort :: "cell \<Rightarrow> error + cell" where
  "np_sort c = (case c of Arr xs \<Rightarrow> Inr (Arr (sort xs)) | _ \<Rightarrow> Inl AxisError)"

definition sort_first_cell :: "string \<Rightarrow> table \<Rightarrow> error + table" where
  "sort_first_cell c t =
     (case col_pos (t_columns t) c of
        None \<Rightarrow> Inl AttributeError
      | Some j \<Rightarrow>
          (case t_rows t of
             [] \<Rightarrow> Inl KeyError
           | r # rs \<Rightarrow>
               (case np_sort (r ! j) of
                  Inl e \<Rightarrow> Inl e
                | Inr v \<Rightarrow> Inr (t\<lparr>t_rows := r[j := v] # rs\<rparr>))))"

definition sort_both :: "string \<Rightarrow> table \<times> table \<Rightarrow> error + table \<times> table" where
  "sort_both c p =
     (case sort_first_cell c (fst p) of
        Inl e \<Rightarrow> Inl e
      | Inr t1 \<Rightarrow>
          (case sort_first_cell c (snd p) of
             Inl e \<Rightarrow> Inl e
           | Inr t2 \<Rightarrow> Inr (t1, t2)))"

definition prenormalize :: "table \<Rightarrow> table \<Rightarrow> error + table \<times> table" where
  "prenormalize l r =
     (case sort_both ''pcodes_power_poles'' (l, r) of
        Inl e \<Rightarrow> Inl e
      | Inr p1 \<Rightarrow>
          (case sort_both ''pcodes_buildings'' p1 of
             Inl e \<Rightarrow> Inl e
           | Inr p2 \<Rightarrow> sort_both ''pcodes_power_lines'' p2))"

subsection \<open>Ignored columns and the column sets (lines 117 to 127)\<close>

definition truthy :: "'a list option \<Rightarrow> bool" where
  "truthy xs = (case xs of None \<Rightarrow> False | Some ys \<Rightarrow> ys \<noteq> [])"

definition drop_cells :: "(string \<times> dtype) list \<Rightarrow> string list \<Rightarrow> cell list \<Rightarrow> cell list" where
  "drop_cells cs ds r = map snd (filter (\<lambda>p. fst (fst p) \<notin> set ds) (zip cs r))"

definition drop_columns :: "string list \<Rightarrow> dataframe \<Rightarrow> dataframe" where
  "drop_columns ds df =
     \<lparr> df_columns = filter (\<lambda>c. fst c \<notin> set ds) (df_columns df),
       df_rows = map (\<lambda>kr. (fst kr, drop_cells (df_columns df) ds (snd kr))) (df_rows df) \<rparr>"

definition drop_ignored :: "string list option \<Rightarrow> dataframe \<Rightarrow> dataframe" where
  "drop_ignored ignore_cols df =
     (case ignore_cols of
        None \<Rightarrow> df
      | Some ds \<Rightarrow>
          (if ds \<noteq> [] \<and> set ds \<subseteq> set (names (df_columns df)) then drop_columns ds df else df))"

fun str_le :: "string \<Rightarrow> string \<Rightarrow> bool" where
  "str_le [] ys = True"
| "str_le (x # xs) [] = False"
| "str_le (x # xs) (y # ys) =
     ((of_char x :: nat) < of_char y \<or> (x = y \<and> str_le xs ys))"

fun insert_str :: "string \<Rightarrow> string list \<Rightarrow> string list" where
  "insert_str x [] = [x]"
| "insert_str x (y # ys) = (if str_le x y then x # y # ys else y # insert_str x ys)"

definition sorted_strs :: "string list \<Rightarrow> string list" where
  "sorted_strs xs = foldr insert_str (remdups xs) []"

definition check_columns :: "CompareResult \<Rightarrow> dataframe \<Rightarrow> dataframe \<Rightarrow> CompareResult" where
  "check_columns res d1 d2 =
     (let n1 = names (df_columns d1); n2 = names (df_columns d2) in
      if set n1 \<noteq> set n2
      then res\<lparr> match := False,
                left_only_columns := Some (sorted_strs (filter (\<lambda>c. c \<notin> set n2) n1)),
                right_only_columns := Some (sorted_strs (filter (\<lambda>c. c \<notin> set n1) n2)) \<rparr>
      else res)"

subsection \<open>Labels in pandas, in \<open>equals\<close> and in Python sets\<close>

text \<open>\<open>Index.equals\<close> and \<open>Series.equals\<close>: missing values in the same place are alike.\<close>

definition cell_equiv :: "cell \<Rightarrow> cell \<Rightarrow> bool" where
  "cell_equiv a b = (a = b \<or> isnull a \<and> isnull b)"

definition key_equiv :: "key \<Rightarrow> key \<Rightarrow> bool" where
  "key_equiv k k' = list_all2 cell_equiv k k'"

definition index_equals :: "key list \<Rightarrow> key list \<Rightarrow> bool" where
  "index_equals ks ks' = list_all2 key_equiv ks ks'"

text \<open>
  Equality of two labels as elements of a Python \<open>set\<close>: a NaN taken out of a float64
  index equals nothing.
\<close>

definition py_eq :: "cell \<Rightarrow> cell \<Rightarrow> bool" where
  "py_eq a b = (a = b \<and> a \<noteq> NaNV)"

definition label_eq :: "key \<Rightarrow> key \<Rightarrow> bool" where
  "label_eq k k' = list_all2 py_eq k k'"

definition py_member :: "key \<Rightarrow> key list \<Rightarrow> bool" where
  "py_member k ks = list_ex (label_eq k) ks"

fun py_set :: "key list \<Rightarrow> key list \<Rightarrow> key list" where
  "py_set seen [] = []"
| "py_set seen (k # ks) =
     (if py_member k seen then py_set seen ks else k # py_set (k # seen) ks)"

text \<open>\<open>set(a) - set(b)\<close> and \<open>set(a) & set(b)\<close>, listed in the order of \<open>a\<close>.\<close>

definition py_diff :: "key list \<Rightarrow> key list \<Rightarrow> key list" where
  "py_diff a b = filter (\<lambda>k. \<not> py_member k b) (py_set [] a)"

definition py_inter :: "key list \<Rightarrow> key list \<Rightarrow> key list" where
  "py_inter a b = filter (\<lambda>k. py_member k b) (py_set [] a)"

text \<open>
  Python's \<open><\<close>: numbers with numbers (a NaN is below nothing and nothing is below
  it), strings with strings; anything else, \<open>None\<close> included, raises TypeError. Tuples
  compare at the first place where they differ.
\<close>

fun str_lt :: "string \<Rightarrow> string \<Rightarrow> bool" where
  "str_lt xs [] = False"
| "str_lt [] (y # ys) = True"
| "str_lt (x # xs) (y # ys) =
     ((of_char x :: nat) < of_char y \<or> (x = y \<and> str_lt xs ys))"

definition py_lt :: "cell \<Rightarrow> cell \<Rightarrow> error + bool" where
  "py_lt a b =
     (case (a, b) of
        (Num x, Num y) \<Rightarrow> Inr (x < y)
      | (Num x, NaNV) \<Rightarrow> Inr False
      | (NaNV, Num y) \<Rightarrow> Inr False
      | (NaNV, NaNV) \<Rightarrow> Inr False
      | (Str x, Str y) \<Rightarrow> Inr (str_lt x y)
      | _ \<Rightarrow> Inl TypeError)"

fun key_lt :: "key \<Rightarrow> key \<Rightarrow> error + bool" where
  "key_lt [] [] = Inr False"
| "key_lt [] (b # bs) = Inr True"
| "key_lt (a # as) [] = Inr False"
| "key_lt (a # as) (b # bs) = (if py_eq a b then key_lt as bs else py_lt a b)"

fun py_insert :: "key \<Rightarrow> key list \<Rightarrow> error + key list" where
  "py_insert x [] = Inr [x]"
| "py_insert x (y # ys) =
     (case key_lt x y of
        Inl e \<Rightarrow> Inl e
      | Inr lt \<Rightarrow>
          (if lt then Inr (x # y # ys)
           else (case py_insert x ys of Inl e \<Rightarrow> Inl e | Inr zs \<Rightarrow> Inr (y # zs))))"

fun py_sorted :: "key list \<Rightarrow> error + key list" where
  "py_sorted [] = Inr []"
| "py_sorted (k # ks) =
     (case py_sorted ks of Inl e \<Rightarrow> Inl e | Inr ss \<Rightarrow> py_insert k ss)"

subsection \<open>Keys: sorting, indexing and duplicates (lines 129 to 157)\<close>

text \<open>
  \<open>sort_values\<close> raises KeyError when a key column is absent; the source catches it and
  leaves that side with its default index. Sorting puts missing values last and raises
  TypeError on strings against numbers, and on arrays. Rows with equal keys keep their
  order (the theorems below do not depend on which of them comes first).
\<close>

definition cell_le :: "cell \<Rightarrow> cell \<Rightarrow> bool" where
  "cell_le c d =
     (if isnull d then True
      else if isnull c then False
      else (case c of
              Num a \<Rightarrow> (case d of Num b \<Rightarrow> a \<le> b | _ \<Rightarrow> True)
            | Str a \<Rightarrow> (case d of Str b \<Rightarrow> str_le a b | _ \<Rightarrow> False)
            | _ \<Rightarrow> False))"

fun key_le :: "key \<Rightarrow> key \<Rightarrow> bool" where
  "key_le [] bs = True"
| "key_le (a # as) [] = False"
| "key_le (a # as) (b # bs) = (if cell_equiv a b then key_le as bs else cell_le a b)"

fun insert_row :: "key \<times> 'a \<Rightarrow> (key \<times> 'a) list \<Rightarrow> (key \<times> 'a) list" where
  "insert_row x [] = [x]"
| "insert_row x (y # ys) =
     (if key_le (fst x) (fst y) then x # y # ys else y # insert_row x ys)"

definition sort_rows :: "(key \<times> 'a) list \<Rightarrow> (key \<times> 'a) list" where
  "sort_rows rs = foldr insert_row rs []"

definition is_num :: "cell \<Rightarrow> bool" where
  "is_num c = (case c of Num a \<Rightarrow> True | _ \<Rightarrow> False)"

definition is_str :: "cell \<Rightarrow> bool" where
  "is_str c = (case c of Str a \<Rightarrow> True | _ \<Rightarrow> False)"

definition check_key_column :: "cell list \<Rightarrow> error option" where
  "check_key_column cs =
     (let present = filter (\<lambda>c. \<not> isnull c) cs
      in if list_all is_num present \<or> list_all is_str present then None
         else Some TypeError)"

fun first_error :: "error option list \<Rightarrow> error option" where
  "first_error [] = None"
| "first_error (None # es) = first_error es"
| "first_error (Some e # es) = Some e"

definition key_of :: "nat list \<Rightarrow> cell list \<Rightarrow> key" where
  "key_of js r = map (\<lambda>j. r ! j) js"

definition rest_of :: "nat list \<Rightarrow> cell list \<Rightarrow> cell list" where
  "rest_of js r = map snd (filter (\<lambda>p. fst p \<notin> set js) (zip [0..<length r] r))"

definition sort_values :: "nat list \<Rightarrow> dataframe \<Rightarrow> dataframe" where
  "sort_values js df =
     df\<lparr> df_rows := map snd (sort_rows (map (\<lambda>kr. (key_of js (snd kr), kr)) (df_rows df))) \<rparr>"

definition set_index :: "string list \<Rightarrow> nat list \<Rightarrow> dataframe \<Rightarrow> dataframe" where
  "set_index index_cols js df =
     \<lparr> df_columns = filter (\<lambda>c. fst c \<notin> set index_cols) (df_columns df),
       df_rows = map (\<lambda>kr. (key_of js (snd kr), rest_of js (snd kr))) (df_rows df) \<rparr>"

definition index_dataframe :: "string list \<Rightarrow> dataframe \<Rightarrow> error + dataframe" where
  "index_dataframe index_cols df =
     (if \<not> set index_cols \<subseteq> set (names (df_columns df)) then Inr df
      else
        (let js = map (\<lambda>c. the (col_pos (df_columns df) c)) index_cols in
         case first_error
                (map (\<lambda>j. check_key_column (map (\<lambda>kr. snd kr ! j) (df_rows df))) js) of
           Some e \<Rightarrow> Inl e
         | None \<Rightarrow> Inr (set_index index_cols js (sort_values js df))))"

text \<open>
  \<open>index.duplicated\<close>: for pandas two missing keys are the same key. \<open>value_counts\<close>
  drops a key that is a single missing value (\<open>dropna\<close> is on by default); the order of
  the rows of the count table is not modelled.
\<close>

fun keep_first :: "key list \<Rightarrow> (key \<times> 'a) list \<Rightarrow> (key \<times> 'a) list" where
  "keep_first seen [] = []"
| "keep_first seen (r # rs) =
     (if fst r \<in> set seen then keep_first seen rs else r # keep_first (fst r # seen) rs)"

definition duplicated :: "key list \<Rightarrow> key list" where
  "duplicated ks = filter (\<lambda>k. count_list ks k \<ge> 2) ks"

definition missing_label :: "key \<Rightarrow> bool" where
  "missing_label k = (case k of [c] \<Rightarrow> isnull c | _ \<Rightarrow> False)"

definition value_counts :: "key list \<Rightarrow> (key \<times> nat) list" where
  "value_counts ks =
     map (\<lambda>k. (k, count_list ks k))
       (filter (\<lambda>k. \<not> missing_label k) (map fst (keep_first [] (map (\<lambda>k. (k, ())) ks))))"

definition validate_indices ::
  "CompareResult \<Rightarrow> dataframe \<Rightarrow> dataframe \<Rightarrow> CompareResult \<times> dataframe \<times> dataframe" where
  "validate_indices res d1 d2 =
     (let l_dup = duplicated (keys d1);
          r_dup = duplicated (keys d2);
          res1 = (if l_dup \<noteq> []
                  then res\<lparr> left_duplicate := True, match := False,
                            left_index_duplicates := Some (value_counts l_dup) \<rparr>
                  else res);
          d1' = (if l_dup \<noteq> [] then d1\<lparr> df_rows := keep_first [] (df_rows d1) \<rparr> else d1);
          res2 = (if r_dup \<noteq> []
                  then res1\<lparr> right_duplicate := True, match := False,
                             right_index_duplicates := Some (value_counts r_dup) \<rparr>
                  else res1);
          d2' = (if r_dup \<noteq> [] then d2\<lparr> df_rows := keep_first [] (df_rows d2) \<rparr> else d2)
      in (res2, d1', d2'))"

subsection \<open>The null-aware comparator (lines 56 to 72)\<close>

record series =
  s_dtype :: dtype
  s_items :: "(key \<times> cell) list"

definition get_series :: "dataframe \<Rightarrow> string \<Rightarrow> series option" where
  "get_series df c =
     (case col_pos (df_columns df) c of
        None \<Rightarrow> None
      | Some j \<Rightarrow>
          Some \<lparr> s_dtype = snd (df_columns df ! j),
                 s_items = map (\<lambda>kr. (fst kr, snd kr ! j)) (df_rows df) \<rparr>)"

text \<open>
  \<open>Series.equals\<close>: the same declared type, the same labels in the same order, and the
  same values, missing values in the same places counting as equal.
\<close>

definition series_equals :: "series \<Rightarrow> series \<Rightarrow> bool" where
  "series_equals s1 s2 =
     (s_dtype s1 = s_dtype s2
      \<and> index_equals (map fst (s_items s1)) (map fst (s_items s2))
      \<and> list_all2 cell_equiv (map snd (s_items s1)) (map snd (s_items s2)))"

text \<open>
  \<open>np.array_equal\<close> on two cells that are not missing: equal shape and equal elements
  for arrays, value equality for scalars, False across kinds.
\<close>

definition array_equal :: "cell \<Rightarrow> cell \<Rightarrow> bool" where
  "array_equal x y = (x = y)"

definition null_labels :: "(key \<times> cell) list \<Rightarrow> key list" where
  "null_labels s = map fst (filter (\<lambda>p. isnull (snd p)) s)"

definition notnull_labels :: "(key \<times> cell) list \<Rightarrow> key list" where
  "notnull_labels s = map fst (filter (\<lambda>p. \<not> isnull (snd p)) s)"

text \<open>
  The three label sets of lines 61 and 63 are Python sets. \<open>np.vectorize\<close> without
  \<open>otypes\<close> raises ValueError when it is called on inputs of size 0, that is when no
  label is non-null on both sides.
\<close>

definition series_nonequal_index :: "series \<Rightarrow> series \<Rightarrow> error + key list" where
  "series_nonequal_index ser1 ser2 =
     (let n1 = null_labels (s_items ser1);
          n2 = null_labels (s_items ser2);
          nonequal_null_idx = py_diff n1 n2 @ py_diff n2 n1;
          notnull_idx = py_inter (notnull_labels (s_items ser1)) (notnull_labels (s_items ser2))
      in if notnull_idx = [] then Inl ValueError
         else Inr (nonequal_null_idx @
                   filter (\<lambda>k. case (map_of (s_items ser1) k, map_of (s_items ser2) k) of
                                  (Some x, Some y) \<Rightarrow> \<not> array_equal x y
                                | _ \<Rightarrow> False) notnull_idx))"

subsection \<open>The relative mismatch (lines 85 to 91 and 205 to 214)\<close>

text \<open>
  On pandas columns a division by zero gives \<open>inf\<close> or \<open>nan\<close> and no ZeroDivisionError,
  so the handler of \<open>calculate_pct_mismatch\<close> is never entered. Subtracting a string or
  \<open>None\<close> raises TypeError; a NaN gives NaN.
\<close>

definition pct_cell :: "cell \<Rightarrow> cell \<Rightarrow> error + pctval" where
  "pct_cell l r =
     (case (l, r) of
        (Num a, Num b) \<Rightarrow>
          Inr (if a = 0 then (if b = 0 then NaN else Infinite)
               else Finite (\<bar>a - b\<bar> / a * 100))
      | (Str a, _) \<Rightarrow> Inl TypeError
      | (_, Str b) \<Rightarrow> Inl TypeError
      | (NoneV, _) \<Rightarrow> Inl TypeError
      | (_, NoneV) \<Rightarrow> Inl TypeError
      | (Arr a, _) \<Rightarrow> Inl Unmodelled
      | (_, Arr b) \<Rightarrow> Inl Unmodelled
      | _ \<Rightarrow> Inr NaN)"

fun calculate_pct_mismatch :: "cell list \<Rightarrow> cell list \<Rightarrow> error + pctval list" where
  "calculate_pct_mismatch (l # ls) (r # rs) =
     (case pct_cell l r of
        Inl e \<Rightarrow> Inl e
      | Inr p \<Rightarrow>
          (case calculate_pct_mismatch ls rs of
             Inl e \<Rightarrow> Inl e
           | Inr ps \<Rightarrow> Inr (p # ps)))"
| "calculate_pct_mismatch ls rs = Inr []"

text \<open>The element-wise \<open>==\<close> of line 211: a NaN equals nothing.\<close>

definition cell_eq :: "cell \<Rightarrow> cell \<Rightarrow> bool" where
  "cell_eq l r = (l \<noteq> NaNV \<and> l = r)"

fun np_where_zero :: "cell list \<Rightarrow> cell list \<Rightarrow> pctval list \<Rightarrow> pctval list" where
  "np_where_zero (l # ls) (r # rs) (p # ps) =
     (if cell_eq l r then Finite 0 else p) # np_where_zero ls rs ps"
| "np_where_zero ls rs ps = []"

definition numeric_condition :: "dtype \<Rightarrow> dtype \<Rightarrow> bool" where
  "numeric_condition ldt rdt = (ldt = Int64 \<or> ldt = Float64 \<and> ldt = rdt)"

subsection \<open>The column differ (lines 184 to 223)\<close>

text \<open>
  \<open>df.loc[labels]\<close>: for each label in turn, the rows that carry it. The join of line 199
  pairs each selected left row with the selected right rows of the same label, and with a
  missing value when there is none.
\<close>

definition loc_items :: "(key \<times> 'a) list \<Rightarrow> key list \<Rightarrow> (key \<times> 'a) list" where
  "loc_items rows ks = concat (map (\<lambda>k. filter (\<lambda>kr. fst kr = k) rows) ks)"

definition join_items ::
  "(key \<times> cell) list \<Rightarrow> (key \<times> cell) list \<Rightarrow> key list \<Rightarrow> (key \<times> cell \<times> cell) list" where
  "join_items s1 s2 ks =
     concat (map (\<lambda>p.
       (case filter (\<lambda>q. fst q = fst p) (loc_items s2 ks) of
          [] \<Rightarrow> [(fst p, snd p, NaNV)]
        | ms \<Rightarrow> map (\<lambda>q. (fst p, snd p, snd q)) ms))
       (loc_items s1 ks))"

text \<open>
  Assigning the \<open>np.where\<close> array, which has one entry per common row, as a column of the
  mismatch table raises ValueError unless the table has as many rows.
\<close>

definition compare_column ::
  "dataframe \<Rightarrow> dataframe \<Rightarrow> string \<Rightarrow> error + ColumnResult option" where
  "compare_column df1 df2 col =
     (case (get_series df1 col, get_series df2 col) of
        (Some s1, Some s2) \<Rightarrow>
          (if series_equals s1 s2 then Inr None
           else
             (case series_nonequal_index s1 s2 of
                Inl e \<Rightarrow> Inl e
              | Inr mismatch_idx \<Rightarrow>
                  (let rows = join_items (s_items s1) (s_items s2) mismatch_idx in
                   if length (df_rows df1) = 0 then Inl ZeroDivisionError
                   else
                     (case (if numeric_condition (s_dtype s1) (s_dtype s2)
                            then (case calculate_pct_mismatch
                                         (map snd (s_items s1)) (map snd (s_items s2)) of
                                    Inl e \<Rightarrow> Inl e
                                  | Inr ps \<Rightarrow>
                                      (let vals = np_where_zero (map snd (s_items s1))
                                                    (map snd (s_items s2)) ps
                                       in if length vals \<noteq> length rows then Inl ValueError
                                          else Inr (Some vals)))
                            else Inr None) of
                        Inl e \<Rightarrow> Inl e
                      | Inr pct \<Rightarrow>
                          Inr (Some \<lparr> dtype_match = (s_dtype s1 = s_dtype s2),
                                      left_dtype = s_dtype s1,
                                      right_dtype = s_dtype s2,
                                      mismatch_percent =
                                        of_nat (length mismatch_idx)
                                          / of_nat (length (df_rows df1)) * 100,
                                      mismatch_number = length mismatch_idx,
                                      mismatch_data = \<lparr> md_rows = rows, md_pct = pct \<rparr> \<rparr>)))))
      | _ \<Rightarrow> Inl KeyError)"

text \<open>A Python dict keeps its keys in insertion order; an assignment replaces in place.\<close>

fun dict_set :: "string \<Rightarrow> 'v \<Rightarrow> (string \<times> 'v) list \<Rightarrow> (string \<times> 'v) list" where
  "dict_set k v [] = [(k, v)]"
| "dict_set k v (p # ps) = (if fst p = k then (k, v) # ps else p # dict_set k v ps)"

fun compare_columns ::
  "dataframe \<Rightarrow> dataframe \<Rightarrow> string list \<Rightarrow> (string \<times> ColumnResult) list
     \<Rightarrow> error + (string \<times> ColumnResult) list" where
  "compare_columns df1 df2 [] cr = Inr cr"
| "compare_columns df1 df2 (col # cols) cr =
     (case compare_column df1 df2 col of
        Inl e \<Rightarrow> Inl e
      | Inr None \<Rightarrow> compare_columns df1 df2 cols cr
      | Inr (Some x) \<Rightarrow> compare_columns df1 df2 cols (dict_set col x cr))"

definition frames_equal :: "dataframe \<Rightarrow> dataframe \<Rightarrow> string list \<Rightarrow> bool" where
  "frames_equal df1 df2 cols =
     (index_equals (keys df1) (keys df2) \<and>
      list_all (\<lambda>c. case (get_series df1 c, get_series df2 c) of
                      (Some s1, Some s2) \<Rightarrow> series_equals s1 s2
                    | _ \<Rightarrow> False) cols)"

definition compare_frames :: "CompareResult \<Rightarrow> dataframe \<Rightarrow> dataframe \<Rightarrow> error + CompareResult" where
  "compare_frames res df1 df2 =
     (let n1 = names (df_columns df1); n2 = names (df_columns df2);
          common_cols = filter (\<lambda>c. c \<in> set n2) n1
      in if \<not> frames_equal df1 df2 common_cols \<or> set n1 \<noteq> set n2
         then (case compare_columns df1 df2 common_cols (column_results res) of
                 Inl e \<Rightarrow> Inl e
               | Inr cr \<Rightarrow>
                   Inr (res\<lparr> match := False, data_match := False, column_results := cr \<rparr>))
         else Inr res)"

subsection \<open>Index reconciliation (lines 159 to 182) and the whole comparison\<close>

definition loc :: "dataframe \<Rightarrow> key list \<Rightarrow> dataframe" where
  "loc df ks = df\<lparr> df_rows := loc_items (df_rows df) ks \<rparr>"

text \<open>
  Lines 159 to 182. \<open>sorted\<close> is applied to the keys of each side alone before the common
  keys are looked at, and can raise. The second component of the result is \<open>None\<close> when
  the source returns at once because no key is common, and otherwise the two frames that
  go on to the column differ.
\<close>

definition compare_indices ::
  "CompareResult \<Rightarrow> dataframe \<Rightarrow> dataframe
     \<Rightarrow> error + CompareResult \<times> (dataframe \<times> dataframe) option" where
  "compare_indices res df1 df2 =
     (let res1 = res\<lparr> left_index_count := length (df_rows df1),
                      right_index_count := length (df_rows df2) \<rparr>
      in if \<not> index_equals (keys df1) (keys df2)
         then
           (case py_sorted (py_diff (keys df1) (keys df2)) of
              Inl e \<Rightarrow> Inl e
            | Inr left_only \<Rightarrow>
                (case py_sorted (py_diff (keys df2) (keys df1)) of
                   Inl e \<Rightarrow> Inl e
                 | Inr right_only \<Rightarrow>
                     (let common_ids = py_inter (keys df1) (keys df2);
                          res2 = res1\<lparr> match := False, index_match := False,
                            left_only_indexes := left_only,
                            right_only_indexes := right_only,
                            common_index_count := length common_ids \<rparr>
                      in if common_ids = [] then Inr (res2, None)
                         else Inr (res2, Some (loc df1 common_ids, loc df2 common_ids)))))
         else Inr (res1\<lparr> common_index_count := length (df_rows df1) \<rparr>, Some (df1, df2)))"

definition compare_indexed ::
  "CompareResult \<Rightarrow> dataframe \<Rightarrow> dataframe \<Rightarrow> error + CompareResult" where
  "compare_indexed res df1 df2 =
     (case compare_indices res df1 df2 of
        Inl e \<Rightarrow> Inl e
      | Inr (res', None) \<Rightarrow> Inr res'
      | Inr (res', Some (a, b)) \<Rightarrow> compare_frames res' a b)"

text \<open>
  Lines 100 to 138: loading, pre-normalization, ignored columns, the column sets, and
  sorting and keying by the index columns when they are given.
\<close>

definition load_and_index ::
  "table \<Rightarrow> table \<Rightarrow> string list option \<Rightarrow> string list option
     \<Rightarrow> error + CompareResult \<times> dataframe \<times> dataframe" where
  "load_and_index l r index_cols ignore_cols =
     (case prenormalize l r of
        Inl e \<Rightarrow> Inl e
      | Inr (t1, t2) \<Rightarrow>
          (let df1 = drop_ignored ignore_cols (loaded t1);
               df2 = drop_ignored ignore_cols (loaded t2);
               res = check_columns new_result df1 df2
           in if truthy index_cols
              then
                (case index_dataframe (the index_cols) df1 of
                   Inl e \<Rightarrow> Inl e
                 | Inr k1 \<Rightarrow>
                     (case index_dataframe (the index_cols) df2 of
                        Inl e \<Rightarrow> Inl e
                      | Inr k2 \<Rightarrow> Inr (res, k1, k2)))
              else Inr (res, df1, df2)))"

text \<open>Lines 100 to 157: the same, followed by the duplicate check when keys are given.\<close>

definition prepare ::
  "table \<Rightarrow> table \<Rightarrow> string list option \<Rightarrow> string list option
     \<Rightarrow> error + CompareResult \<times> dataframe \<times> dataframe" where
  "prepare l r index_cols ignore_cols =
     (case load_and_index l r index_cols ignore_cols of
        Inl e \<Rightarrow> Inl e
      | Inr (res, df1, df2) \<Rightarrow>
          (if truthy index_cols then Inr (validate_indices res df1 df2)
           else Inr (res, df1, df2)))"

definition compare_data ::
  "table \<Rightarrow> table \<Rightarrow> string list option \<Rightarrow> string list option \<Rightarrow> error + CompareResult" where
  "compare_data l r index_cols ignore_cols =
     (case prepare l r index_cols ignore_cols of
        Inl e \<Rightarrow> Inl e
      | Inr (res, df1, df2) \<Rightarrow> compare_indexed res df1 df2)"

subsection \<open>Example tables\<close>

text \<open>The two tables of the keyed scenario, with the columns \<open>id\<close> and \<open>val\<close> only.\<close>

definition scenario_left :: table where
  "scenario_left =
     \<lparr> t_columns = [(''id'', Int64), (''val'', Int64)],
       t_rows = [[Num 1, Num 10], [Num 2, Num 20]] \<rparr>"

definition scenario_right :: table where
  "scenario_right =
     \<lparr> t_columns = [(''id'', Int64), (''val'', Int64)],
       t_rows = [[Num 1, Num 10], [Num 2, Num 99], [Num 3, Num 5]] \<rparr>"

definition pcodes_columns :: "(string \<times> dtype) list" where
  "pcodes_columns =
     [(''pcodes_power_poles'', Object), (''pcodes_buildings'', Object),
      (''pcodes_power_lines'', Object)]"

text \<open>The same two tables with the three array-valued columns added.\<close>

definition scenario_left_pcodes :: table where
  "scenario_left_pcodes =
     \<lparr> t_columns = [(''id'', Int64), (''val'', Int64)] @ pcodes_columns,
       t_rows = [[Num 1, Num 10, Arr [2, 1], Arr [], Arr [3]],
                 [Num 2, Num 20, Arr [4], Arr [], Arr [3]]] \<rparr>"

definition scenario_right_pcodes :: table where
  "scenario_right_pcodes =
     \<lparr> t_columns = [(''id'', Int64), (''val'', Int64)] @ pcodes_columns,
       t_rows = [[Num 1, Num 10, Arr [1, 2], Arr [], Arr [3]],
                 [Num 2, Num 99, Arr [4], Arr [], Arr [3]],
                 [Num 3, Num 5, Arr [4], Arr [], Arr [3]]] \<rparr>"

text \<open>An int64 column against a float64 column, every row different.\<close>

definition int_left :: table where
  "int_left =
     \<lparr> t_columns = (''val'', Int64) # pcodes_columns,
       t_rows = [[Num 1, Arr [1], Arr [], Arr []], [Num 2, Arr [1], Arr [], Arr []]] \<rparr>"

definition float_right :: table where
  "float_right =
     \<lparr> t_columns = (''val'', Float64) # pcodes_columns,
       t_rows = [[Num (3 / 2), Arr [1], Arr [], Arr []],
                 [Num (5 / 2), Arr [1], Arr [], Arr []]] \<rparr>"



text \<open>A column that is missing on the left and a string on the right, in one row.\<close>

definition null_left :: table where
  "null_left =
     \<lparr> t_columns = (''x'', Object) # pcodes_columns,
       t_rows = [[NoneV, Arr [1], Arr [], Arr []]] \<rparr>"

definition str_right :: table where
  "str_right =
     \<lparr> t_columns = (''x'', Object) # pcodes_columns,
       t_rows = [[Str ''a'', Arr [1], Arr [], Arr []]] \<rparr>"

text \<open>Two rows whose arrays differ in order only, on both rows.\<close>

definition order_left :: table where
  "order_left =
     \<lparr> t_columns = pcodes_columns,
       t_rows = [[Arr [2, 1], Arr [], Arr []], [Arr [2, 1], Arr [], Arr []]] \<rparr>"

definition order_right :: table where
  "order_right =
     \<lparr> t_columns = pcodes_columns,
       t_rows = [[Arr [1, 2], Arr [], Arr []], [Arr [1, 2], Arr [], Arr []]] \<rparr>"

text \<open>A table with a \<open>debug\<close> column and one without.\<close>

definition debug_left :: table where
  "debug_left =
     \<lparr> t_columns = (''debug'', Object) # pcodes_columns,
       t_rows = [[Str ''x'', Arr [1], Arr [], Arr []]] \<rparr>"

definition debug_right :: table where
  "debug_right =
     \<lparr> t_columns = pcodes_columns, t_rows = [[Arr [1], Arr [], Arr []]] \<rparr>"

text \<open>Two rows sharing the key \<open>A\<close>, and a table whose only key is \<open>B\<close>.\<close>

definition dup_table :: table where
  "dup_table =
     \<lparr> t_columns = (''k'', Object) # pcodes_columns,
       t_rows = [[Str ''A'', Arr [1], Arr [], Arr []], [Str ''A'', Arr [1], Arr [], Arr []]] \<rparr>"

definition other_key_table :: table where
  "other_key_table =
     \<lparr> t_columns = (''k'', Object) # pcodes_columns,
       t_rows = [[Str ''B'', Arr [1], Arr [], Arr []]] \<rparr>"

text \<open>The same table with a \<open>debug\<close> column in the middle and two rows.\<close>

definition debug_middle :: table where
  "debug_middle =
     \<lparr> t_columns = [(''pcodes_power_poles'', Object), (''debug'', Object),
                    (''pcodes_buildings'', Object), (''pcodes_power_lines'', Object)],
       t_rows = [[Arr [1], Str ''x'', Arr [2], Arr [3]],
                 [Arr [4], Str ''y'', Arr [5], Arr [6]]] \<rparr>"

text \<open>Two rows whose key is missing, and a table with a missing key and the key \<open>A\<close>.\<close>

definition none_dup_table :: table where
  "none_dup_table =
     \<lparr> t_columns = (''k'', Object) # pcodes_columns,
       t_rows = [[NoneV, Arr [1], Arr [], Arr []], [NoneV, Arr [1], Arr [], Arr []]] \<rparr>"

definition none_a_table :: table where
  "none_a_table =
     \<lparr> t_columns = (''k'', Object) # pcodes_columns,
       t_rows = [[NoneV, Arr [1], Arr [], Arr []], [Str ''A'', Arr [1], Arr [], Arr []]] \<rparr>"

text \<open>
  Two tables keyed by a float64 column that holds a NaN; they differ in \<open>name\<close> on the
  row of the NaN key only.
\<close>

definition nan_key_left :: table where
  "nan_key_left =
     \<lparr> t_columns = [(''id'', Float64), (''name'', Object)] @ pcodes_columns,
       t_rows = [[Num 1, Str ''a'', Arr [1], Arr [], Arr []],
                 [NaNV, Str ''b'', Arr [1], Arr [], Arr []]] \<rparr>"

definition nan_key_right :: table where
  "nan_key_right =
     \<lparr> t_columns = [(''id'', Float64), (''name'', Object)] @ pcodes_columns,
       t_rows = [[Num 1, Str ''a'', Arr [1], Arr [], Arr []],
                 [NaNV, Str ''c'', Arr [1], Arr [], Arr []]] \<rparr>"



section \<open>The keyed scenario\<close>

text \<open>
  On the two tables as the scenario gives them, with the columns \<open>id\<close> and \<open>val\<close>
  only, the first statement after loading raises AttributeError (see the precondition of
  the pre-normalization below).
\<close>

lemma scenario_raises_attribute_error:
  "compare_data scenario_left scenario_right (Some [''id'']) None = Inl AttributeError"
  by code_simp

text \<open>
  With the three array-valued columns added, the index reconciliation finds what the
  scenario expects: \<open>index_match = False\<close>, the right-only key \<open>3\<close>, two common keys,
  and one mismatching key for \<open>val\<close>.
\<close>

lemma scenario_reconciliation:
  "(case prepare scenario_left_pcodes scenario_right_pcodes (Some [''id'']) None of
      Inl e \<Rightarrow> False
    | Inr (res, a, b) \<Rightarrow>
        (case compare_indices res a b of
           Inr (res2, Some (x, y)) \<Rightarrow>
             \<not> index_match res2 \<and> right_only_indexes res2 = [[Num 3]]
             \<and> left_only_indexes res2 = [] \<and> common_index_count res2 = 2
             \<and> (case (get_series x ''val'', get_series y ''val'') of
                   (Some s1, Some s2) \<Rightarrow> series_nonequal_index s1 s2 = Inr [[Num 2]]
                 | _ \<Rightarrow> False)
         | _ \<Rightarrow> False))"
  by code_simp

text \<open>
  C1 (the code at the failing input): on the scenario tables with the three array-valued
  columns added, keyed by \<open>id\<close>, the comparison returns no result. The column \<open>val\<close> is
  int64, so line 210 assigns the \<open>np.where\<close> array, which has one entry for each of the
  two common rows, to the mismatch table, which has one row, and pandas raises ValueError.
\<close>

theorem scenario_pcodes_raises_value_error:
  "compare_data scenario_left_pcodes scenario_right_pcodes (Some [''id'']) None = Inl ValueError"
  by code_simp

section \<open>The relative-mismatch column\<close>

text \<open>
  C2 (the code at the failing input): the left column is int64 and the right column is
  float64, so the two sides do not share a declared type, and the comparison still adds
  the relative-mismatch column to the mismatch table of \<open>val\<close>.
\<close>

theorem pct_column_added_for_different_dtypes:
  "compare_data int_left float_right None None =
     Inr \<lparr> match = False, data_match = False, right_duplicate = False,
           left_duplicate = False, left_only_columns = None, right_only_columns = None,
           index_match = True, left_index_duplicates = None, right_index_duplicates = None,
           common_index_count = 2, left_index_count = 2, right_index_count = 2,
           left_only_indexes = [], right_only_indexes = [],
           column_results =
             [(''val'',
               \<lparr> dtype_match = False, left_dtype = Int64, right_dtype = Float64,
                 mismatch_percent = 100, mismatch_number = 2,
                 mismatch_data =
                   \<lparr> md_rows = [([Num 0], Num 1, Num (3 / 2)), ([Num 1], Num 2, Num (5 / 2))],
                     md_pct = Some [Finite 50, Finite 25] \<rparr> \<rparr>)] \<rparr>"
  by code_simp

section \<open>The null-aware comparator\<close>

text \<open>
  C3 (the code at the failing input): the only label is missing on the left and a string
  on the right, so no label is non-null on both sides; the comparator raises ValueError,
  and so does the comparison of two one-row tables with such a column.
\<close>

theorem comparator_raises_on_empty_notnull:
  "series_nonequal_index
     \<lparr> s_dtype = Object, s_items = [([Num 0], NoneV)] \<rparr>
     \<lparr> s_dtype = Object, s_items = [([Num 0], Str ''a'')] \<rparr> = Inl ValueError
   \<and> compare_data null_left str_right None None = Inl ValueError"
  by code_simp

section \<open>The precondition of the pre-normalization\<close>

lemma col_pos_None: "col_pos cs c = None \<longleftrightarrow> c \<notin> set (names cs)"
  by (induction cs) (auto simp: names_def split: option.splits)

lemma col_pos_Some:
  "col_pos cs c = Some j \<Longrightarrow> j < length cs \<and> fst (cs ! j) = c"
  by (induction cs arbitrary: j) (auto split: if_splits option.splits)

lemma col_pos_Some_names: "col_pos cs c = Some j \<Longrightarrow> c \<in> set (names cs)"
  using col_pos_None [of cs c] by auto

lemma sort_first_cell_Inr:
  assumes "sort_first_cell c t = Inr t'"
  shows "c \<in> set (names (t_columns t))" and "t_rows t \<noteq> []"
    and "t_columns t' = t_columns t" and "length (t_rows t') = length (t_rows t)"
  using assms
  by (auto simp: sort_first_cell_def split: option.splits list.splits sum.splits
        dest: col_pos_Some_names)

lemma sort_both_Inr:
  assumes "sort_both c p = Inr q"
  shows "c \<in> set (names (t_columns (fst p)))" and "c \<in> set (names (t_columns (snd p)))"
    and "t_rows (fst p) \<noteq> []" and "t_rows (snd p) \<noteq> []"
    and "t_columns (fst q) = t_columns (fst p)" and "t_columns (snd q) = t_columns (snd p)"
    and "length (t_rows (fst q)) = length (t_rows (fst p))"
    and "length (t_rows (snd q)) = length (t_rows (snd p))"
  using assms
  by (auto simp: sort_both_def split: sum.splits dest: sort_first_cell_Inr)

lemma prenormalize_Inr:
  assumes "prenormalize l r = Inr (l', r')"
  shows "set (names pcodes_columns) \<subseteq> set (names (t_columns l))"
    and "set (names pcodes_columns) \<subseteq> set (names (t_columns r))"
    and "t_rows l \<noteq> []" and "t_rows r \<noteq> []"
    and "t_columns l' = t_columns l" and "t_columns r' = t_columns r"
    and "length (t_rows l') = length (t_rows l)" and "length (t_rows r') = length (t_rows r)"
proof -
  from assms obtain p1 p2 where
    s1: "sort_both ''pcodes_power_poles'' (l, r) = Inr p1" and
    s2: "sort_both ''pcodes_buildings'' p1 = Inr p2" and
    s3: "sort_both ''pcodes_power_lines'' p2 = Inr (l', r')"
    by (auto simp: prenormalize_def split: sum.splits)
  note a = sort_both_Inr [OF s1] and b = sort_both_Inr [OF s2] and c = sort_both_Inr [OF s3]
  show "set (names pcodes_columns) \<subseteq> set (names (t_columns l))"
    using a(1) b(1) c(1) a(5) b(5) by (simp add: pcodes_columns_def names_def)
  show "set (names pcodes_columns) \<subseteq> set (names (t_columns r))"
    using a(2) b(2) c(2) a(6) b(6) by (simp add: pcodes_columns_def names_def)
  show "t_rows l \<noteq> []" using a(3) by simp
  show "t_rows r \<noteq> []" using a(4) by simp
  show "t_columns l' = t_columns l" using a(5) b(5) c(5) by simp
  show "t_columns r' = t_columns r" using a(6) b(6) c(6) by simp
  show "length (t_rows l') = length (t_rows l)" using a(7) b(7) c(7) by simp
  show "length (t_rows r') = length (t_rows r)" using a(8) b(8) c(8) by simp
qed

lemma compare_data_prenormalize_Inl:
  "prenormalize l r = Inl e \<Longrightarrow> compare_data l r ic ig = Inl e"
  by (simp add: compare_data_def prepare_def load_and_index_def)

text \<open>
  C10: when either table lacks one of the columns \<open>pcodes_power_poles\<close>,
  \<open>pcodes_buildings\<close>, \<open>pcodes_power_lines\<close>, or has no row, the comparison raises in
  the pre-normalization, before any index reconciliation or column comparison, whatever
  the index and ignored columns are; it returns no result.
\<close>

theorem missing_pcodes_or_empty_raises:
  assumes "(\<exists>c \<in> set (names pcodes_columns).
              c \<notin> set (names (t_columns l)) \<or> c \<notin> set (names (t_columns r)))
           \<or> t_rows l = [] \<or> t_rows r = []"
  shows "\<exists>e. prenormalize l r = Inl e \<and> compare_data l r index_cols ignore_cols = Inl e"
proof (cases "prenormalize l r")
  case (Inl e)
  then show ?thesis by (auto intro: compare_data_prenormalize_Inl)
next
  case (Inr p)
  obtain l' r' where "p = (l', r')" by (cases p)
  with Inr have "prenormalize l r = Inr (l', r')" by simp
  from prenormalize_Inr(1-4) [OF this] assms show ?thesis by blast
qed

text \<open>The scenario tables lack all three columns.\<close>

theorem missing_pcodes_or_empty_raises_witness:
  "((\<exists>c \<in> set (names pcodes_columns).
       c \<notin> set (names (t_columns scenario_left)) \<or> c \<notin> set (names (t_columns scenario_right)))
    \<or> t_rows scenario_left = [] \<or> t_rows scenario_right = [])
   \<and> (\<exists>e. prenormalize scenario_left scenario_right = Inl e
          \<and> compare_data scenario_left scenario_right (Some [''id'']) None = Inl e)"
proof -
  have h: "(\<exists>c \<in> set (names pcodes_columns).
       c \<notin> set (names (t_columns scenario_left)) \<or> c \<notin> set (names (t_columns scenario_right)))
    \<or> t_rows scenario_left = [] \<or> t_rows scenario_right = []"
    by (simp add: pcodes_columns_def names_def scenario_left_def scenario_right_def)
  show ?thesis using h missing_pcodes_or_empty_raises [OF h] by blast
qed

section \<open>Ignored columns\<close>

text \<open>
  Dropping columns from a frame whose rows have one cell for each column leaves every
  other column as it was: the same declared type and the same values under the same labels.
\<close>

lemma filter_nth_take:
  "j < length xs \<Longrightarrow> P (xs ! j) \<Longrightarrow> filter P xs ! length (filter P (take j xs)) = xs ! j"
proof (induction xs arbitrary: j)
  case Nil
  then show ?case by simp
next
  case (Cons x xs)
  then show ?case by (cases j) auto
qed

lemma filter_take_less:
  "j < length xs \<Longrightarrow> P (xs ! j) \<Longrightarrow> length (filter P (take j xs)) < length (filter P xs)"
proof (induction xs arbitrary: j)
  case Nil
  then show ?case by simp
next
  case (Cons x xs)
  then show ?case by (cases j) auto
qed

lemma col_pos_filter:
  "col_pos cs c = Some j \<Longrightarrow> P c \<Longrightarrow>
     col_pos (filter (\<lambda>x. P (fst x)) cs) c = Some (length (filter (\<lambda>x. P (fst x)) (take j cs)))"
proof (induction cs arbitrary: j)
  case Nil
  then show ?case by simp
next
  case (Cons x xs)
  show ?case
  proof (cases "fst x = c")
    case True
    with Cons.prems show ?thesis by simp
  next
    case False
    with Cons.prems obtain i where i: "col_pos xs c = Some i" "j = Suc i"
      by (auto split: option.splits)
    from Cons.IH [OF i(1) Cons.prems(2)] i(2) False show ?thesis by simp
  qed
qed

lemma col_pos_filter_out:
  "\<not> P c \<Longrightarrow> col_pos (filter (\<lambda>x. P (fst x)) cs) c = None"
  by (induction cs) auto

lemma col_pos_filter_None:
  "col_pos cs c = None \<Longrightarrow> col_pos (filter (\<lambda>x. P (fst x)) cs) c = None"
  by (induction cs) (auto split: if_splits option.splits)

lemma length_filter_zip:
  "length xs = length ys \<Longrightarrow>
     length (filter (\<lambda>p. Q (fst p)) (zip xs ys)) = length (filter Q xs)"
  by (induction xs ys rule: list_induct2) auto

lemma length_drop_cells:
  "length r = length cs \<Longrightarrow>
     length (drop_cells cs ds r) = length (filter (\<lambda>x. fst x \<notin> set ds) cs)"
  using length_filter_zip [of cs r "\<lambda>x. fst x \<notin> set ds"] by (simp add: drop_cells_def)

lemma drop_cells_nth:
  assumes "length r = length cs" and "j < length cs" and "fst (cs ! j) \<notin> set ds"
  shows "drop_cells cs ds r ! length (filter (\<lambda>x. fst x \<notin> set ds) (take j cs)) = r ! j"
proof -
  let ?P = "\<lambda>p :: (string \<times> dtype) \<times> cell. fst (fst p) \<notin> set ds"
  let ?z = "zip cs r"
  have j: "j < length ?z" using assms by simp
  have p: "?P (?z ! j)" using assms by simp
  have len: "length (filter ?P (take j ?z)) = length (filter (\<lambda>x. fst x \<notin> set ds) (take j cs))"
    using length_filter_zip [of "take j cs" "take j r" "\<lambda>x. fst x \<notin> set ds"] assms(1)
    by (simp add: take_zip)
  have lt: "length (filter ?P (take j ?z)) < length (filter ?P ?z)"
    using filter_take_less [of j ?z ?P] j p by simp
  have "drop_cells cs ds r ! length (filter ?P (take j ?z)) = snd (filter ?P ?z ! length (filter ?P (take j ?z)))"
    using lt by (simp add: drop_cells_def)
  also have "\<dots> = snd (?z ! j)" using filter_nth_take [of j ?z ?P] j p by simp
  also have "\<dots> = r ! j" using assms by simp
  finally show ?thesis using len by simp
qed

lemma get_series_drop_columns:
  assumes wf: "\<forall>kr \<in> set (df_rows df). length (snd kr) = length (df_columns df)"
    and c: "c \<notin> set ds"
  shows "get_series (drop_columns ds df) c = get_series df c"
proof (cases "col_pos (df_columns df) c")
  case None
  then show ?thesis
    using col_pos_filter_None [of "df_columns df" c "\<lambda>n. n \<notin> set ds"]
    by (simp add: get_series_def drop_columns_def)
next
  case (Some j)
  let ?P = "\<lambda>x :: string \<times> dtype. fst x \<notin> set ds"
  let ?j' = "length (filter ?P (take j (df_columns df)))"
  have cp: "col_pos (filter ?P (df_columns df)) c = Some ?j'"
    using col_pos_filter [OF Some, of "\<lambda>n. n \<notin> set ds"] c by simp
  have j: "j < length (df_columns df)" "fst (df_columns df ! j) = c"
    using col_pos_Some [OF Some] by simp_all
  have pj: "?P (df_columns df ! j)" using j c by simp
  have dt: "filter ?P (df_columns df) ! ?j' = df_columns df ! j"
    using filter_nth_take [of j "df_columns df" ?P] j(1) pj by simp
  have cells: "drop_cells (df_columns df) ds (snd kr) ! ?j' = snd kr ! j"
    if "kr \<in> set (df_rows df)" for kr
    using drop_cells_nth [of "snd kr" "df_columns df" j ds] wf that j pj by simp
  show ?thesis
    using Some cp dt cells by (simp add: get_series_def drop_columns_def comp_def)
qed

lemma rows_drop_columns:
  assumes "\<forall>kr \<in> set (df_rows df). length (snd kr) = length (df_columns df)"
  shows "\<forall>kr \<in> set (df_rows (drop_columns ds df)).
           length (snd kr) = length (df_columns (drop_columns ds df))"
  using assms by (auto simp: drop_columns_def length_drop_cells)

text \<open>
  C9 (as stated): with \<open>debug\<close> to ignore and a \<open>debug\<close> column on the left only, no
  column is dropped from either side. On the example the left frame loses its \<open>debug\<close>
  column and the cells under it, and the comparison, no longer seeing it, reports equal
  column sets and a match.
\<close>

theorem debug_dropped_on_example:
  "drop_ignored (Some [''debug'']) (loaded debug_left) =
     \<lparr> df_columns = pcodes_columns, df_rows = [([Num 0], [Arr [1], Arr [], Arr []])] \<rparr>
   \<and> loaded debug_left =
     \<lparr> df_columns = (''debug'', Object) # pcodes_columns,
       df_rows = [([Num 0], [Str ''x'', Arr [1], Arr [], Arr []])] \<rparr>
   \<and> compare_data debug_left debug_right None (Some [''debug'']) =
       Inr \<lparr> match = True, data_match = True, right_duplicate = False,
             left_duplicate = False, left_only_columns = None, right_only_columns = None,
             index_match = True, left_index_duplicates = None,
             right_index_duplicates = None, common_index_count = 1, left_index_count = 1,
             right_index_count = 1, left_only_indexes = [], right_only_indexes = [],
             column_results = [] \<rparr>"
  by code_simp

text \<open>
  C9 (amended): with \<open>debug\<close> to ignore and a \<open>debug\<close> column on the left only, the
  column \<open>debug\<close> is dropped from the left table (the frame has no such column any more,
  every row has one cell for each remaining column, and every other column keeps its
  declared type and its values), and the right table is left as it is: each side is
  checked on its own.
\<close>

theorem ignore_debug_drops_left_only:
  assumes "''debug'' \<in> set (names (df_columns df1))"
    and "''debug'' \<notin> set (names (df_columns df2))"
    and "\<forall>kr \<in> set (df_rows df1). length (snd kr) = length (df_columns df1)"
  shows "get_series (drop_ignored (Some [''debug'']) df1) ''debug'' = None
       \<and> (\<forall>c. c \<noteq> ''debug'' \<longrightarrow>
             get_series (drop_ignored (Some [''debug'']) df1) c = get_series df1 c)
       \<and> names (df_columns (drop_ignored (Some [''debug'']) df1))
           = filter (\<lambda>c. c \<noteq> ''debug'') (names (df_columns df1))
       \<and> keys (drop_ignored (Some [''debug'']) df1) = keys df1
       \<and> (\<forall>kr \<in> set (df_rows (drop_ignored (Some [''debug'']) df1)).
             length (snd kr) = length (df_columns (drop_ignored (Some [''debug'']) df1)))
       \<and> drop_ignored (Some [''debug'']) df2 = df2"
proof -
  have d1: "drop_ignored (Some [''debug'']) df1 = drop_columns [''debug''] df1"
    using assms(1) by (simp add: drop_ignored_def)
  have d2: "drop_ignored (Some [''debug'']) df2 = df2"
    using assms(2) by (simp add: drop_ignored_def)
  have "get_series (drop_columns [''debug''] df1) ''debug'' = None"
    using col_pos_filter_out [of "\<lambda>n. n \<notin> set [''debug'']" "''debug''" "df_columns df1"]
    by (simp add: get_series_def drop_columns_def)
  moreover have "\<forall>c. c \<noteq> ''debug'' \<longrightarrow>
      get_series (drop_columns [''debug''] df1) c = get_series df1 c"
    using get_series_drop_columns [OF assms(3), of _ "[''debug'']"] by simp
  moreover have "names (df_columns (drop_columns [''debug''] df1))
      = filter (\<lambda>c. c \<noteq> ''debug'') (names (df_columns df1))"
    by (simp add: drop_columns_def names_def filter_map comp_def)
  moreover have "keys (drop_columns [''debug''] df1) = keys df1"
    by (simp add: drop_columns_def keys_def comp_def)
  moreover note rows_drop_columns [OF assms(3), of "[''debug'']"]
  ultimately show ?thesis using d1 d2 by simp
qed

text \<open>A left table with \<open>debug\<close> as its second column and two rows.\<close>

theorem ignore_debug_drops_left_only_witness:
  "''debug'' \<in> set (names (df_columns (loaded debug_middle)))
   \<and> ''debug'' \<notin> set (names (df_columns (loaded debug_right)))
   \<and> list_all (\<lambda>kr. length (snd kr) = length (df_columns (loaded debug_middle)))
         (df_rows (loaded debug_middle))
   \<and> get_series (drop_ignored (Some [''debug'']) (loaded debug_middle)) ''debug'' = None
   \<and> get_series (drop_ignored (Some [''debug'']) (loaded debug_middle)) ''pcodes_buildings''
       = get_series (loaded debug_middle) ''pcodes_buildings''
   \<and> list_all (\<lambda>kr. length (snd kr)
                       = length (df_columns (drop_ignored (Some [''debug'']) (loaded debug_middle))))
         (df_rows (drop_ignored (Some [''debug'']) (loaded debug_middle)))
   \<and> drop_ignored (Some [''debug'']) (loaded debug_right) = loaded debug_right"
proof -
  have h1: "''debug'' \<in> set (names (df_columns (loaded debug_middle)))"
    by (simp add: loaded_def debug_middle_def names_def)
  have h2: "''debug'' \<notin> set (names (df_columns (loaded debug_right)))"
    by (simp add: loaded_def debug_right_def names_def pcodes_columns_def)
  have h3: "\<forall>kr \<in> set (df_rows (loaded debug_middle)).
         length (snd kr) = length (df_columns (loaded debug_middle))"
    by (simp add: loaded_def debug_middle_def)
  have ne: "''pcodes_buildings'' \<noteq> ''debug''" by simp
  note t = ignore_debug_drops_left_only [OF h1 h2 h3]
  note t1 = t [THEN conjunct1]
  note t2 = t [THEN conjunct2, THEN conjunct1, rule_format, OF ne]
  note t5 = t [THEN conjunct2, THEN conjunct2, THEN conjunct2, THEN conjunct2, THEN conjunct1]
  note t6 = t [THEN conjunct2, THEN conjunct2, THEN conjunct2, THEN conjunct2, THEN conjunct2]
  show ?thesis unfolding list_all_iff using h1 h2 h3 t1 t2 t5 t6 by (intro conjI)
qed

section \<open>Keys: duplicates and the frames that are compared\<close>

lemma keep_first_keys: "fst ` set (keep_first seen rs) = fst ` set rs - set seen"
  by (induction rs arbitrary: seen) auto

lemma keep_first_distinct: "distinct (map fst (keep_first seen rs))"
proof (induction rs arbitrary: seen)
  case Nil
  then show ?case by simp
next
  case (Cons r rs)
  have "fst r \<notin> fst ` set (keep_first (fst r # seen) rs)"
    by (simp add: keep_first_keys)
  with Cons show ?case by simp
qed

lemma keep_first_id:
  "distinct (map fst rs) \<Longrightarrow> set (map fst rs) \<inter> set seen = {} \<Longrightarrow> keep_first seen rs = rs"
  by (induction rs arbitrary: seen) auto

lemma map_of_keep_first: "k \<notin> set seen \<Longrightarrow> map_of (keep_first seen rs) k = map_of rs k"
  by (induction rs arbitrary: seen) auto

lemma distinct_count_list: "distinct ks \<longleftrightarrow> (\<forall>k \<in> set ks. count_list ks k < 2)"
proof (induction ks)
  case Nil
  then show ?case by simp
next
  case (Cons x xs)
  have "x \<notin> set xs \<longleftrightarrow> count_list xs x = 0" by (simp add: count_list_0_iff)
  with Cons show ?case by (auto simp: count_list_0_iff)
qed

lemma duplicated_Nil: "duplicated ks = [] \<longleftrightarrow> distinct ks"
  by (auto simp: duplicated_def distinct_count_list filter_empty_conv not_le)

lemma validate_indices_frames:
  assumes "validate_indices res d1 d2 = (res', a, b)"
  shows "df_rows a = keep_first [] (df_rows d1)" and "df_rows b = keep_first [] (df_rows d2)"
    and "df_columns a = df_columns d1" and "df_columns b = df_columns d2"
  using assms
  by (auto simp: validate_indices_def Let_def duplicated_Nil keys_def keep_first_id split: if_splits)

lemma validate_indices_result:
  assumes "validate_indices res d1 d2 = (res', a, b)"
  shows "data_match res' = data_match res" and "index_match res' = index_match res"
    and "column_results res' = column_results res"
    and "left_only_columns res' = left_only_columns res"
    and "right_only_columns res' = right_only_columns res"
    and "left_duplicate res' = (left_duplicate res \<or> \<not> distinct (keys d1))"
    and "right_duplicate res' = (right_duplicate res \<or> \<not> distinct (keys d2))"
    and "match res' = (match res \<and> distinct (keys d1) \<and> distinct (keys d2))"
    and "\<not> distinct (keys d1) \<Longrightarrow>
           left_index_duplicates res' = Some (value_counts (duplicated (keys d1)))"
    and "\<not> distinct (keys d2) \<Longrightarrow>
           right_index_duplicates res' = Some (value_counts (duplicated (keys d2)))"
  using assms
  by (auto simp: validate_indices_def Let_def duplicated_Nil split: if_splits)

lemma length_insert_row: "length (insert_row x ys) = Suc (length ys)"
  by (induction ys) auto

lemma length_sort_rows: "length (sort_rows rs) = length rs"
  by (induction rs) (auto simp: sort_rows_def length_insert_row)

lemma length_range_index: "length (range_index i rs) = length rs"
  by (induction rs arbitrary: i) auto

lemma length_drop_ignored: "length (df_rows (drop_ignored ig df)) = length (df_rows df)"
  by (auto simp: drop_ignored_def drop_columns_def split: option.splits)

lemma length_index_dataframe:
  "index_dataframe ic df = Inr df' \<Longrightarrow> length (df_rows df') = length (df_rows df)"
  by (auto simp: index_dataframe_def Let_def set_index_def sort_values_def length_sort_rows
      split: if_splits option.splits)

lemma check_columns_fields:
  "data_match (check_columns res d1 d2) = data_match res"
  "index_match (check_columns res d1 d2) = index_match res"
  "column_results (check_columns res d1 d2) = column_results res"
  "left_duplicate (check_columns res d1 d2) = left_duplicate res"
  "right_duplicate (check_columns res d1 d2) = right_duplicate res"
  by (simp_all add: check_columns_def Let_def)

lemma load_and_index_Inr:
  assumes "load_and_index l r ic ig = Inr (res0, d1, d2)"
  shows "df_rows d1 \<noteq> []" and "df_rows d2 \<noteq> []"
    and "data_match res0" and "index_match res0" and "column_results res0 = []"
    and "\<not> left_duplicate res0" and "\<not> right_duplicate res0"
proof -
  from assms obtain t1 t2 where p: "prenormalize l r = Inr (t1, t2)"
    by (auto simp: load_and_index_def split: sum.splits)
  let ?a = "drop_ignored ig (loaded t1)" and ?b = "drop_ignored ig (loaded t2)"
  have la: "length (df_rows ?a) = length (t_rows l)"
    using prenormalize_Inr(7) [OF p] by (simp add: length_drop_ignored loaded_def length_range_index)
  have lb: "length (df_rows ?b) = length (t_rows r)"
    using prenormalize_Inr(8) [OF p] by (simp add: length_drop_ignored loaded_def length_range_index)
  have res0: "res0 = check_columns new_result ?a ?b"
    using assms p by (auto simp: load_and_index_def Let_def split: if_splits sum.splits)
  have "length (df_rows d1) = length (t_rows l) \<and> length (df_rows d2) = length (t_rows r)"
    using assms p la lb
    by (auto simp: load_and_index_def Let_def split: if_splits sum.splits
        dest!: length_index_dataframe)
  with prenormalize_Inr(3,4) [OF p] show "df_rows d1 \<noteq> []" and "df_rows d2 \<noteq> []" by auto
  show "data_match res0" and "index_match res0" and "column_results res0 = []"
    and "\<not> left_duplicate res0" and "\<not> right_duplicate res0"
    by (simp_all add: res0 check_columns_fields new_result_def)
qed

lemma keep_first_nonempty: "rs \<noteq> [] \<Longrightarrow> keep_first [] rs \<noteq> []"
  by (cases rs) auto

lemma prepare_cases:
  assumes "prepare l r ic ig = Inr (res, a, b)"
  shows "\<exists>res0 d1 d2. load_and_index l r ic ig = Inr (res0, d1, d2)
           \<and> (if truthy ic then validate_indices res0 d1 d2 = (res, a, b)
               else (res, a, b) = (res0, d1, d2))"
  using assms by (auto simp: prepare_def split: sum.splits if_splits)

lemma prepare_Inr_conj:
  assumes "prepare l r ic ig = Inr (res, a, b)"
  shows "df_rows a \<noteq> [] \<and> df_rows b \<noteq> [] \<and> data_match res \<and> index_match res
         \<and> column_results res = []"
proof -
  from prepare_cases [OF assms] obtain res0 d1 d2 where
    li: "load_and_index l r ic ig = Inr (res0, d1, d2)" and
    c: "if truthy ic then validate_indices res0 d1 d2 = (res, a, b)
        else (res, a, b) = (res0, d1, d2)"
    by blast
  note lr = load_and_index_Inr [OF li]
  show ?thesis
  proof (cases "truthy ic")
    case True
    with c have v: "validate_indices res0 d1 d2 = (res, a, b)" by simp
    show ?thesis
      using validate_indices_frames(1,2) [OF v] validate_indices_result(1,2,3) [OF v] lr
      by (simp add: keep_first_nonempty)
  next
    case False
    with c lr show ?thesis by simp
  qed
qed

lemma prepare_Inr:
  assumes "prepare l r ic ig = Inr (res, a, b)"
  shows "df_rows a \<noteq> []" and "df_rows b \<noteq> []"
    and "data_match res" and "index_match res" and "column_results res = []"
  using prepare_Inr_conj [OF assms] by simp_all

lemma py_eq_cell_equiv: "py_eq a b \<Longrightarrow> cell_equiv a b"
  by (simp add: py_eq_def cell_equiv_def)

lemma label_eq_key_equiv: "label_eq k k' \<Longrightarrow> key_equiv k k'"
  unfolding label_eq_def key_equiv_def
  by (erule list_all2_mono) (rule py_eq_cell_equiv)

lemma py_set_subset: "set (py_set seen ks) \<subseteq> set ks"
  by (induction ks arbitrary: seen) auto

lemma py_inter_empty:
  assumes "\<forall>k \<in> set ks. \<forall>k' \<in> set ks'. \<not> key_equiv k k'"
  shows "py_inter ks ks' = []"
proof -
  have "\<not> py_member k ks'" if "k \<in> set ks" for k
    using assms that label_eq_key_equiv by (auto simp: py_member_def list_ex_iff)
  then show ?thesis using py_set_subset [of "[]" ks]
    by (auto simp: py_inter_def filter_empty_conv)
qed

lemma index_equals_head:
  "index_equals (k # ks) ks' \<Longrightarrow> \<exists>k' \<in> set ks'. key_equiv k k'"
  by (cases ks') (auto simp: index_equals_def)

section \<open>No common key\<close>

text \<open>
  C8 (the code at the failing input): with the keys \<open>None\<close> and \<open>A\<close> on the left and
  \<open>B\<close> on the right, loading and keying succeed and no key is common. Line 166 sorts the
  two left-only keys before the common keys are looked at: \<open>None\<close> and a string do not
  compare, and the comparison raises TypeError and returns no result.
\<close>

theorem missing_key_among_disjoint_keys_raises:
  "prepare none_a_table other_key_table (Some [''k'']) None =
     Inr (new_result,
          \<lparr> df_columns = pcodes_columns,
            df_rows = [([Str ''A''], [Arr [1], Arr [], Arr []]),
                       ([NoneV], [Arr [1], Arr [], Arr []])] \<rparr>,
          \<lparr> df_columns = pcodes_columns,
            df_rows = [([Str ''B''], [Arr [1], Arr [], Arr []])] \<rparr>)
   \<and> compare_data none_a_table other_key_table (Some [''k'']) None = Inl TypeError"
  by code_simp

text \<open>
  Where the two calls of \<open>sorted\<close> (lines 166 to 170) succeed, the early return is
  reached: whenever loading and keying succeed, no key of one table is a key of the other,
  and the keys of each side sort without error, the comparison returns at once, without
  any per-column analysis: \<open>data_match\<close> is still at its default \<open>True\<close>,
  \<open>index_match\<close> and \<open>match\<close> are \<open>False\<close>, \<open>common_index_count\<close> is 0, no
  column result is recorded, and the two lists of exclusive keys are the sorted keys of
  each side.
\<close>

theorem disjoint_keys_return_at_once:
  assumes "prepare l r index_cols ignore_cols = Inr (res0, df1, df2)"
    and "\<forall>k \<in> set (keys df1). \<forall>k' \<in> set (keys df2). \<not> key_equiv k k'"
    and "py_sorted (py_diff (keys df1) (keys df2)) = Inr lo"
    and "py_sorted (py_diff (keys df2) (keys df1)) = Inr ro"
  shows "\<exists>res. compare_data l r index_cols ignore_cols = Inr res \<and> data_match res
           \<and> \<not> index_match res \<and> \<not> match res \<and> common_index_count res = 0
           \<and> column_results res = []
           \<and> left_only_indexes res = lo \<and> right_only_indexes res = ro
           \<and> left_index_count res = length (df_rows df1)
           \<and> right_index_count res = length (df_rows df2)"
proof -
  note p = prepare_Inr [OF assms(1)]
  obtain k ks where k: "keys df1 = k # ks" using p(1) by (cases "keys df1") (auto simp: keys_def)
  have ne: "\<not> index_equals (keys df1) (keys df2)"
  proof
    assume "index_equals (keys df1) (keys df2)"
    with k have "\<exists>k' \<in> set (keys df2). key_equiv k k'" by (simp add: index_equals_head)
    with assms(2) k show False by auto
  qed
  have emp: "py_inter (keys df1) (keys df2) = []" using assms(2) by (rule py_inter_empty)
  show ?thesis
    using assms(1,3,4) ne emp p(3,5)
    by (simp add: compare_data_def compare_indexed_def compare_indices_def Let_def)
qed

text \<open>A table whose keys are all \<open>A\<close> against a table whose only key is \<open>B\<close>.\<close>

theorem disjoint_keys_return_at_once_witness:
  "(case prepare dup_table other_key_table (Some [''k'']) None of
      Inl e \<Rightarrow> False
    | Inr (res0, df1, df2) \<Rightarrow>
        (\<forall>k \<in> set (keys df1). \<forall>k' \<in> set (keys df2). \<not> key_equiv k k')
        \<and> py_sorted (py_diff (keys df1) (keys df2)) = Inr [[Str ''A'']]
        \<and> py_sorted (py_diff (keys df2) (keys df1)) = Inr [[Str ''B'']])
   \<and> (\<exists>res. compare_data dup_table other_key_table (Some [''k'']) None = Inr res
          \<and> data_match res \<and> \<not> index_match res \<and> \<not> match res
          \<and> common_index_count res = 0 \<and> column_results res = []
          \<and> left_only_indexes res = [[Str ''A'']] \<and> right_only_indexes res = [[Str ''B'']])"
proof -
  have h: "case prepare dup_table other_key_table (Some [''k'']) None of
      Inl e \<Rightarrow> False
    | Inr (res0, df1, df2) \<Rightarrow>
        (\<forall>k \<in> set (keys df1). \<forall>k' \<in> set (keys df2). \<not> key_equiv k k')
        \<and> py_sorted (py_diff (keys df1) (keys df2)) = Inr [[Str ''A'']]
        \<and> py_sorted (py_diff (keys df2) (keys df1)) = Inr [[Str ''B'']]"
    by code_simp
  then obtain res0 df1 df2 where
    a: "prepare dup_table other_key_table (Some [''k'']) None = Inr (res0, df1, df2)"
    and b: "\<forall>k \<in> set (keys df1). \<forall>k' \<in> set (keys df2). \<not> key_equiv k k'"
    and c: "py_sorted (py_diff (keys df1) (keys df2)) = Inr [[Str ''A'']]"
    and d: "py_sorted (py_diff (keys df2) (keys df1)) = Inr [[Str ''B'']]"
    by (auto split: sum.splits)
  from disjoint_keys_return_at_once [OF a b c d] have
    "\<exists>res. compare_data dup_table other_key_table (Some [''k'']) None = Inr res
          \<and> data_match res \<and> \<not> index_match res \<and> \<not> match res
          \<and> common_index_count res = 0 \<and> column_results res = []
          \<and> left_only_indexes res = [[Str ''A'']] \<and> right_only_indexes res = [[Str ''B'']]"
    by (elim exE conjE) (intro exI conjI, assumption+)
  with h show ?thesis by (rule conjI)
qed

section \<open>Duplicate keys\<close>

lemma compare_frames_fields:
  assumes "compare_frames res' a b = Inr res"
  shows "left_duplicate res = left_duplicate res'"
    and "right_duplicate res = right_duplicate res'"
    and "left_index_duplicates res = left_index_duplicates res'"
    and "right_index_duplicates res = right_index_duplicates res'"
    and "left_index_count res = left_index_count res'"
    and "right_index_count res = right_index_count res'"
    and "common_index_count res = common_index_count res'"
    and "index_match res = index_match res'"
    and "left_only_columns res = left_only_columns res'"
    and "right_only_columns res = right_only_columns res'"
    and "match res \<Longrightarrow> match res'"
  using assms by (auto simp: compare_frames_def Let_def split: if_splits sum.splits)

lemma compare_indices_fields:
  assumes "compare_indices res' a b = Inr (res, fr)"
  shows "left_duplicate res = left_duplicate res'"
    and "right_duplicate res = right_duplicate res'"
    and "left_index_duplicates res = left_index_duplicates res'"
    and "right_index_duplicates res = right_index_duplicates res'"
    and "left_index_count res = length (df_rows a)"
    and "right_index_count res = length (df_rows b)"
    and "data_match res = data_match res'"
    and "column_results res = column_results res'"
    and "left_only_columns res = left_only_columns res'"
    and "right_only_columns res = right_only_columns res'"
    and "match res \<Longrightarrow> match res'"
  using assms
  by (auto simp: compare_indices_def Let_def split: if_splits sum.splits)

lemma compare_indexed_cases:
  assumes "compare_indexed res' a b = Inr res"
  shows "compare_indices res' a b = Inr (res, None)
         \<or> (\<exists>res2 x y. compare_indices res' a b = Inr (res2, Some (x, y))
               \<and> compare_frames res2 x y = Inr res)"
  using assms by (auto simp: compare_indexed_def split: sum.splits option.splits)

lemma compare_indexed_fields_conj:
  assumes "compare_indexed res' a b = Inr res"
  shows "left_duplicate res = left_duplicate res'
       \<and> right_duplicate res = right_duplicate res'
       \<and> left_index_duplicates res = left_index_duplicates res'
       \<and> right_index_duplicates res = right_index_duplicates res'
       \<and> left_index_count res = length (df_rows a)
       \<and> right_index_count res = length (df_rows b)
       \<and> (match res \<longrightarrow> match res')"
proof -
  from compare_indexed_cases [OF assms] consider
    (none) "compare_indices res' a b = Inr (res, None)"
    | (some) res2 x y where "compare_indices res' a b = Inr (res2, Some (x, y))"
        "compare_frames res2 x y = Inr res"
    by blast
  then show ?thesis
  proof cases
    case none
    note f = compare_indices_fields [OF none]
    show ?thesis using f by simp
  next
    case some
    note f = compare_indices_fields [OF some(1)] and g = compare_frames_fields [OF some(2)]
    show ?thesis using f g by auto
  qed
qed

lemma compare_indexed_fields:
  assumes "compare_indexed res' a b = Inr res"
  shows "left_duplicate res = left_duplicate res'"
    and "right_duplicate res = right_duplicate res'"
    and "left_index_duplicates res = left_index_duplicates res'"
    and "right_index_duplicates res = right_index_duplicates res'"
    and "left_index_count res = length (df_rows a)"
    and "right_index_count res = length (df_rows b)"
    and "match res \<Longrightarrow> match res'"
  using compare_indexed_fields_conj [OF assms] by simp_all

lemma length_keep_first: "length (keep_first [] rs) = card (fst ` set rs)"
proof -
  have "length (keep_first [] rs) = length (map fst (keep_first [] rs))" by simp
  also have "\<dots> = card (set (map fst (keep_first [] rs)))"
    using keep_first_distinct [of "[]" rs] by (simp only: distinct_card)
  also have "\<dots> = card (fst ` set rs)" by (simp add: keep_first_keys)
  finally show ?thesis .
qed

lemma count_list_filter:
  "count_list (filter P ks) k = (if P k then count_list ks k else 0)"
  by (induction ks) auto

lemma map_of_graph:
  "map_of (map (\<lambda>k. (k, f k)) xs) k = (if k \<in> set xs then Some (f k) else None)"
  by (induction xs) auto

lemma missing_label_iff: "missing_label k \<longleftrightarrow> k = [NoneV] \<or> k = [NaNV]"
  by (auto simp: missing_label_def isnull_def split: list.splits)

lemma map_of_value_counts:
  "map_of (value_counts (duplicated ks)) k =
     (if 2 \<le> count_list ks k \<and> k \<noteq> [NoneV] \<and> k \<noteq> [NaNV]
      then Some (count_list ks k) else None)"
proof -
  let ?d = "duplicated ks"
  let ?u = "filter (\<lambda>k. \<not> missing_label k) (map fst (keep_first [] (map (\<lambda>k. (k, ())) ?d)))"
  have su: "k \<in> set ?u \<longleftrightarrow> k \<in> set ?d \<and> \<not> missing_label k"
    by (simp add: keep_first_keys image_image)
  have mem: "k \<in> set ?d \<longleftrightarrow> 2 \<le> count_list ks k"
    using count_list_0_iff [of ks k] by (auto simp: duplicated_def)
  have cnt: "2 \<le> count_list ks k \<Longrightarrow> count_list ?d k = count_list ks k"
    by (simp add: duplicated_def count_list_filter)
  have "map_of (map (\<lambda>k. (k, count_list ?d k)) ?u) k =
          (if k \<in> set ?u then Some (count_list ?d k) else None)"
    by (rule map_of_graph)
  then have "map_of (value_counts ?d) k = (if k \<in> set ?u then Some (count_list ?d k) else None)"
    unfolding value_counts_def .
  then show ?thesis using su mem cnt missing_label_iff [of k] by simp
qed

text \<open>
  C7 (the code at the failing input): in a table whose two rows both have a missing key,
  the key is a duplicate for \<open>index.duplicated\<close>, the duplicate flags are set and
  \<open>match\<close> is \<open>False\<close>, but the count table is empty: \<open>value_counts\<close> drops
  missing values, so the duplicate key has no count.
\<close>

theorem duplicate_missing_key_not_counted:
  "compare_data none_dup_table none_dup_table (Some [''k'']) None =
     Inr \<lparr> match = False, data_match = True, right_duplicate = True,
           left_duplicate = True, left_only_columns = None, right_only_columns = None,
           index_match = True, left_index_duplicates = Some [],
           right_index_duplicates = Some [], common_index_count = 1,
           left_index_count = 1, right_index_count = 1, left_only_indexes = [],
           right_only_indexes = [], column_results = [] \<rparr>"
  by code_simp

text \<open>
  The rest of the duplicate policy, and the count of every other duplicate key: when key
  columns are given and a side has two rows with the same key, a result that the
  comparison returns has that side's duplicate flag set, \<open>match = False\<close> whatever the
  data, and a table that holds, for every key that occurs at least twice and is not a
  missing value, the number of its rows, and nothing else. The comparison goes on with the
  first row of every key only: the frames handed to the index reconciliation have each key
  of the sorted frame once, with the row that a lookup in the sorted frame finds first, so
  that side's row count is the number of distinct keys.
\<close>

theorem duplicate_keys_flagged:
  assumes "load_and_index l r index_cols ignore_cols = Inr (res0, df1, df2)"
    and "truthy index_cols"
    and "compare_data l r index_cols ignore_cols = Inr res"
  shows "(\<not> distinct (keys df1) \<longrightarrow>
            left_duplicate res \<and> \<not> match res
            \<and> (\<exists>tbl. left_index_duplicates res = Some tbl
                  \<and> (\<forall>k. map_of tbl k =
                        (if 2 \<le> count_list (keys df1) k \<and> k \<noteq> [NoneV] \<and> k \<noteq> [NaNV]
                         then Some (count_list (keys df1) k) else None)))
            \<and> left_index_count res = card (set (keys df1)))
       \<and> (\<not> distinct (keys df2) \<longrightarrow>
            right_duplicate res \<and> \<not> match res
            \<and> (\<exists>tbl. right_index_duplicates res = Some tbl
                  \<and> (\<forall>k. map_of tbl k =
                        (if 2 \<le> count_list (keys df2) k \<and> k \<noteq> [NoneV] \<and> k \<noteq> [NaNV]
                         then Some (count_list (keys df2) k) else None)))
            \<and> right_index_count res = card (set (keys df2)))
       \<and> (\<exists>res' a b. prepare l r index_cols ignore_cols = Inr (res', a, b)
            \<and> compare_indexed res' a b = Inr res
            \<and> distinct (keys a) \<and> set (keys a) = set (keys df1)
            \<and> map_of (df_rows a) = map_of (df_rows df1)
            \<and> distinct (keys b) \<and> set (keys b) = set (keys df2)
            \<and> map_of (df_rows b) = map_of (df_rows df2))"
proof -
  obtain res' a b where v: "validate_indices res0 df1 df2 = (res', a, b)"
    by (cases "validate_indices res0 df1 df2") auto
  have pr: "prepare l r index_cols ignore_cols = Inr (res', a, b)"
    using assms(1,2) v by (simp add: prepare_def)
  have ci: "compare_indexed res' a b = Inr res"
    using assms(3) pr by (simp add: compare_data_def)
  note fr = validate_indices_frames [OF v]
  note vr = validate_indices_result [OF v]
  note cf = compare_indexed_fields [OF ci]
  have la: "length (df_rows a) = card (set (keys df1))"
    by (simp add: fr(1) length_keep_first keys_def)
  have lb: "length (df_rows b) = card (set (keys df2))"
    by (simp add: fr(2) length_keep_first keys_def)
  have left: "\<not> distinct (keys df1) \<longrightarrow>
            left_duplicate res \<and> \<not> match res
            \<and> (\<exists>tbl. left_index_duplicates res = Some tbl
                  \<and> (\<forall>k. map_of tbl k =
                        (if 2 \<le> count_list (keys df1) k \<and> k \<noteq> [NoneV] \<and> k \<noteq> [NaNV]
                         then Some (count_list (keys df1) k) else None)))
            \<and> left_index_count res = card (set (keys df1))"
    using cf vr la map_of_value_counts [of "keys df1"] by auto
  have right: "\<not> distinct (keys df2) \<longrightarrow>
            right_duplicate res \<and> \<not> match res
            \<and> (\<exists>tbl. right_index_duplicates res = Some tbl
                  \<and> (\<forall>k. map_of tbl k =
                        (if 2 \<le> count_list (keys df2) k \<and> k \<noteq> [NoneV] \<and> k \<noteq> [NaNV]
                         then Some (count_list (keys df2) k) else None)))
            \<and> right_index_count res = card (set (keys df2))"
    using cf vr lb map_of_value_counts [of "keys df2"] by auto
  have d: "distinct (keys a)" "distinct (keys b)"
    by (simp_all add: keys_def fr keep_first_distinct)
  have s: "set (keys a) = set (keys df1)" "set (keys b) = set (keys df2)"
    by (simp_all add: keys_def fr keep_first_keys)
  have m: "map_of (df_rows a) = map_of (df_rows df1)"
    "map_of (df_rows b) = map_of (df_rows df2)"
    by (auto simp: fr map_of_keep_first)
  have last: "\<exists>res' a b. prepare l r index_cols ignore_cols = Inr (res', a, b)
            \<and> compare_indexed res' a b = Inr res
            \<and> distinct (keys a) \<and> set (keys a) = set (keys df1)
            \<and> map_of (df_rows a) = map_of (df_rows df1)
            \<and> distinct (keys b) \<and> set (keys b) = set (keys df2)
            \<and> map_of (df_rows b) = map_of (df_rows df2)"
    using pr ci d s m by blast
  from left right last show ?thesis by (intro conjI)
qed

text \<open>A table with two rows of key \<open>A\<close>, compared with itself.\<close>

theorem duplicate_keys_flagged_witness:
  "(case load_and_index dup_table dup_table (Some [''k'']) None of
      Inl e \<Rightarrow> False
    | Inr (res0, df1, df2) \<Rightarrow>
        \<not> distinct (keys df1) \<and> \<not> distinct (keys df2)
        \<and> count_list (keys df1) [Str ''A''] = 2 \<and> card (set (keys df1)) = 1)
   \<and> truthy (Some [''k''])
   \<and> (\<exists>res. compare_data dup_table dup_table (Some [''k'']) None = Inr res
          \<and> left_duplicate res \<and> right_duplicate res \<and> \<not> match res
          \<and> left_index_count res = 1
          \<and> (\<exists>tbl. left_index_duplicates res = Some tbl
                \<and> map_of tbl [Str ''A''] = Some 2))"
proof -
  have h: "case load_and_index dup_table dup_table (Some [''k'']) None of
      Inl e \<Rightarrow> False
    | Inr (res0, df1, df2) \<Rightarrow>
        \<not> distinct (keys df1) \<and> \<not> distinct (keys df2)
        \<and> count_list (keys df1) [Str ''A''] = 2 \<and> card (set (keys df1)) = 1"
    by code_simp
  then obtain res0 df1 df2 where
    li: "load_and_index dup_table dup_table (Some [''k'']) None = Inr (res0, df1, df2)"
    and d: "\<not> distinct (keys df1)" "\<not> distinct (keys df2)"
    and n: "count_list (keys df1) [Str ''A''] = 2" "card (set (keys df1)) = 1"
    by (auto split: sum.splits)
  have t: "truthy (Some [''k''])" by (simp add: truthy_def)
  have "case compare_data dup_table dup_table (Some [''k'']) None of
          Inl e \<Rightarrow> False | Inr res \<Rightarrow> True"
    by code_simp
  then obtain res where c: "compare_data dup_table dup_table (Some [''k'']) None = Inr res"
    by (auto split: sum.splits)
  note dk = duplicate_keys_flagged [OF li t c]
  note left = dk [THEN conjunct1, rule_format, OF d(1)]
  note right = dk [THEN conjunct2, THEN conjunct1, rule_format, OF d(2)]
  from left obtain tbl where
    tbl: "left_index_duplicates res = Some tbl"
      "\<forall>k. map_of tbl k =
         (if 2 \<le> count_list (keys df1) k \<and> k \<noteq> [NoneV] \<and> k \<noteq> [NaNV]
          then Some (count_list (keys df1) k) else None)"
    by blast
  have "map_of tbl [Str ''A''] = Some 2" using tbl(2) n(1) by simp
  with tbl(1) left right n(2) c have
    "\<exists>res. compare_data dup_table dup_table (Some [''k'']) None = Inr res
          \<and> left_duplicate res \<and> right_duplicate res \<and> \<not> match res
          \<and> left_index_count res = 1
          \<and> (\<exists>tbl. left_index_duplicates res = Some tbl
                \<and> map_of tbl [Str ''A''] = Some 2)"
    by auto
  with h t show ?thesis by (intro conjI)
qed

section \<open>Identical copies\<close>

lemma sort_both_same: "sort_both c (t, t) = Inr (a, b) \<Longrightarrow> a = b"
  by (auto simp: sort_both_def split: sum.splits)

lemma prenormalize_same: "prenormalize t t = Inr (a, b) \<Longrightarrow> a = b"
  by (auto simp: prenormalize_def split: sum.splits dest!: sort_both_same)

lemma get_series_Some:
  "c \<in> set (names (df_columns d)) \<Longrightarrow> \<exists>s. get_series d c = Some s"
  using col_pos_None [of "df_columns d" c]
  by (auto simp: get_series_def split: option.splits)

lemma cell_equiv_refl: "cell_equiv a a"
  by (simp add: cell_equiv_def)

lemma key_equiv_refl: "key_equiv k k"
  by (simp add: key_equiv_def list_all2_same cell_equiv_refl)

lemma index_equals_refl: "index_equals ks ks"
  by (simp add: index_equals_def list_all2_same key_equiv_refl)

lemma series_equals_refl: "series_equals s s"
  by (simp add: series_equals_def index_equals_refl list_all2_same cell_equiv_refl)

lemma frames_equal_refl:
  "set cs \<subseteq> set (names (df_columns d)) \<Longrightarrow> frames_equal d d cs"
  by (auto simp: frames_equal_def list_all_iff series_equals_refl index_equals_refl
      split: option.splits dest!: get_series_Some)

lemma compare_frames_same: "compare_frames res d d = Inr res"
  by (simp add: compare_frames_def Let_def frames_equal_refl)

lemma compare_indexed_same:
  "compare_indexed res d d =
     Inr (res\<lparr> left_index_count := length (df_rows d), right_index_count := length (df_rows d),
               common_index_count := length (df_rows d) \<rparr>)"
  by (simp add: compare_indexed_def compare_indices_def Let_def compare_frames_same
      index_equals_refl)

lemma validate_indices_distinct:
  "distinct (keys d1) \<Longrightarrow> distinct (keys d2) \<Longrightarrow> validate_indices res d1 d2 = (res, d1, d2)"
  by (simp add: validate_indices_def Let_def duplicated_Nil)

lemma check_columns_same: "check_columns res d d = res"
  by (simp add: check_columns_def Let_def)

lemma load_and_index_same:
  assumes "load_and_index t t ic ig = Inr (res0, d1, d2)"
  shows "d1 = d2" and "res0 = new_result"
proof -
  from assms obtain t1 t2 where p: "prenormalize t t = Inr (t1, t2)"
    by (auto simp: load_and_index_def split: sum.splits)
  then have e: "t1 = t2" by (rule prenormalize_same)
  show "d1 = d2" using assms p e
    by (auto simp: load_and_index_def Let_def split: if_splits sum.splits)
  show "res0 = new_result" using assms p e
    by (auto simp: load_and_index_def Let_def check_columns_same split: if_splits sum.splits)
qed

text \<open>Without key columns, loading succeeds as soon as the pre-normalization does.\<close>

lemma load_and_index_unkeyed:
  "\<not> truthy ic \<Longrightarrow> prenormalize l r = Inr (t1, t2) \<Longrightarrow>
     load_and_index l r ic ig =
       Inr (check_columns new_result (drop_ignored ig (loaded t1)) (drop_ignored ig (loaded t2)),
            drop_ignored ig (loaded t1), drop_ignored ig (loaded t2))"
  by (simp add: load_and_index_def Let_def)

text \<open>
  C4 (as stated): for every table, comparing two identical copies returns a result with
  \<open>match = True\<close>. The scenario table, which has no \<open>pcodes_power_poles\<close> column,
  compared with itself raises AttributeError.
\<close>

theorem identical_scenario_table_raises:
  "compare_data scenario_left scenario_left None None = Inl AttributeError"
  by code_simp

text \<open>
  C4 (amended): for every table on which loading, pre-normalization and keying raise
  nothing and whose keyed form, when key columns are given, has no duplicate key, the
  comparison of two identical copies returns a result with \<open>match\<close>, \<open>data_match\<close>
  and \<open>index_match\<close> true, both duplicate flags false, no column result and no
  left-only or right-only column. Missing key values are no obstacle.
\<close>

theorem identical_copies_match:
  assumes "load_and_index T T index_cols ignore_cols = Inr (res0, df1, df2)"
    and "truthy index_cols \<longrightarrow> distinct (keys df1)"
  shows "\<exists>res. compare_data T T index_cols ignore_cols = Inr res \<and> match res
           \<and> data_match res \<and> index_match res \<and> \<not> left_duplicate res
           \<and> \<not> right_duplicate res \<and> column_results res = []
           \<and> left_only_columns res = None \<and> right_only_columns res = None"
proof -
  note s = load_and_index_same [OF assms(1)]
  have "prepare T T index_cols ignore_cols = Inr (new_result, df1, df1)"
    using assms s by (simp add: prepare_def validate_indices_distinct)
  then have "compare_data T T index_cols ignore_cols = compare_indexed new_result df1 df1"
    by (simp add: compare_data_def)
  then show ?thesis by (simp add: compare_indexed_same new_result_def)
qed

text \<open>A table keyed by a float64 column that holds a NaN.\<close>

theorem identical_copies_match_witness:
  "(case load_and_index nan_key_left nan_key_left (Some [''id'']) None of
      Inl e \<Rightarrow> False
    | Inr (res0, df1, df2) \<Rightarrow>
        (truthy (Some [''id'']) \<longrightarrow> distinct (keys df1)) \<and> [NaNV] \<in> set (keys df1))
   \<and> (\<exists>res. compare_data nan_key_left nan_key_left (Some [''id'']) None = Inr res
          \<and> match res \<and> data_match res \<and> index_match res \<and> \<not> left_duplicate res
          \<and> \<not> right_duplicate res \<and> column_results res = []
          \<and> left_only_columns res = None \<and> right_only_columns res = None)"
proof -
  have h: "case load_and_index nan_key_left nan_key_left (Some [''id'']) None of
      Inl e \<Rightarrow> False
    | Inr (res0, df1, df2) \<Rightarrow>
        (truthy (Some [''id'']) \<longrightarrow> distinct (keys df1)) \<and> [NaNV] \<in> set (keys df1)"
    by code_simp
  then obtain res0 df1 df2 where
    "load_and_index nan_key_left nan_key_left (Some [''id'']) None = Inr (res0, df1, df2)"
    "truthy (Some [''id'']) \<longrightarrow> distinct (keys df1)"
    by (auto split: sum.splits)
  from identical_copies_match [OF this] h show ?thesis by (intro conjI)
qed

section \<open>Pre-normalization of the first row\<close>

text \<open>
  Lines 108 to 115 assign to the cell at row label 0 of each of the three array columns;
  the comparison of lines 117 onwards works on the tables so changed.
\<close>

lemma np_sort_permutation: "mset xs = mset ys \<Longrightarrow> np_sort (Arr xs) = np_sort (Arr ys)"
  by (simp add: np_sort_def) (metis mset_sort sorted_sort properties_for_sort)

lemma sort_first_cell_effect:
  assumes "sort_first_cell c t = Inr t'"
  shows "\<exists>j row rest xs. col_pos (t_columns t) c = Some j \<and> t_rows t = row # rest
           \<and> row ! j = Arr xs \<and> t' = t\<lparr>t_rows := row[j := Arr (sort xs)] # rest\<rparr>"
  using assms
  by (auto simp: sort_first_cell_def np_sort_def split: option.splits list.splits cell.splits)

lemma col_pos_different:
  "col_pos cs c = Some i \<Longrightarrow> col_pos cs d = Some j \<Longrightarrow> c \<noteq> d \<Longrightarrow> i \<noteq> j"
  by (auto dest!: col_pos_Some)

lemma sort_first_cells_effect:
  assumes s1: "sort_first_cell ''pcodes_power_poles'' t = Inr t1"
    and s2: "sort_first_cell ''pcodes_buildings'' t1 = Inr t2"
    and s3: "sort_first_cell ''pcodes_power_lines'' t2 = Inr t'"
  shows "\<exists>row rest j1 j2 j3 xs1 xs2 xs3.
           t_rows t = row # rest
           \<and> col_pos (t_columns t) ''pcodes_power_poles'' = Some j1
           \<and> col_pos (t_columns t) ''pcodes_buildings'' = Some j2
           \<and> col_pos (t_columns t) ''pcodes_power_lines'' = Some j3
           \<and> row ! j1 = Arr xs1 \<and> row ! j2 = Arr xs2 \<and> row ! j3 = Arr xs3
           \<and> t' = t\<lparr>t_rows := row[j1 := Arr (sort xs1), j2 := Arr (sort xs2),
                                     j3 := Arr (sort xs3)] # rest\<rparr>"
proof -
  from sort_first_cell_effect [OF s1] obtain j1 row rest xs1 where
    a: "col_pos (t_columns t) ''pcodes_power_poles'' = Some j1" "t_rows t = row # rest"
       "row ! j1 = Arr xs1" "t1 = t\<lparr>t_rows := row[j1 := Arr (sort xs1)] # rest\<rparr>"
    by blast
  from sort_first_cell_effect [OF s2] a obtain j2 xs2 where
    b: "col_pos (t_columns t) ''pcodes_buildings'' = Some j2"
       "row[j1 := Arr (sort xs1)] ! j2 = Arr xs2"
       "t2 = t\<lparr>t_rows := row[j1 := Arr (sort xs1), j2 := Arr (sort xs2)] # rest\<rparr>"
    by auto
  from sort_first_cell_effect [OF s3] a b obtain j3 xs3 where
    c: "col_pos (t_columns t) ''pcodes_power_lines'' = Some j3"
       "row[j1 := Arr (sort xs1), j2 := Arr (sort xs2)] ! j3 = Arr xs3"
       "t' = t\<lparr>t_rows := row[j1 := Arr (sort xs1), j2 := Arr (sort xs2),
                               j3 := Arr (sort xs3)] # rest\<rparr>"
    by auto
  have n12: "j1 \<noteq> j2" using col_pos_different [OF a(1) b(1)] by simp
  have n13: "j1 \<noteq> j3" using col_pos_different [OF a(1) c(1)] by simp
  have n23: "j2 \<noteq> j3" using col_pos_different [OF b(1) c(1)] by simp
  have "row ! j2 = Arr xs2" using b(2) n12 by simp
  moreover have "row ! j3 = Arr xs3" using c(2) n13 n23 by simp
  ultimately show ?thesis using a b c by blast
qed

lemma sort_permutation: "mset ys = mset xs \<Longrightarrow> sort ys = sort (xs :: int list)"
  by (metis mset_sort sorted_sort properties_for_sort)

lemma nth_list_update_gen:
  "xs[i := x] ! j = (if i = j \<and> i < length xs then x else xs ! j)"
  by (cases "i < length xs") (auto simp: nth_list_update list_update_beyond)

lemma upd_same_Arr:
  assumes "row ! j = Arr xs" and "mset ys = mset xs"
  shows "\<exists>zs. row[j := Arr ys] ! j = Arr zs \<and> sort zs = sort xs"
proof (cases "j < length row")
  case True
  then have "row[j := Arr ys] ! j = Arr ys" by simp
  with assms(2) show ?thesis by (auto dest: sort_permutation)
next
  case False
  then have "row[j := Arr ys] = row" by (simp add: list_update_beyond)
  with assms(1) show ?thesis by simp
qed

lemma sort_first_cell_row:
  assumes "col_pos (t_columns t) c = Some j" and "t_rows t = row # rest"
    and "row ! j = Arr zs"
  shows "sort_first_cell c t = Inr (t\<lparr>t_rows := row[j := Arr (sort zs)] # rest\<rparr>)"
  using assms by (simp add: sort_first_cell_def np_sort_def)

lemma sort_chain_permuted:
  fixes t :: table
  assumes rows: "t_rows t = row # rest"
    and c1: "col_pos (t_columns t) ''pcodes_power_poles'' = Some j1"
    and c2: "col_pos (t_columns t) ''pcodes_buildings'' = Some j2"
    and c3: "col_pos (t_columns t) ''pcodes_power_lines'' = Some j3"
    and x1: "row ! j1 = Arr xs1" and x2: "row ! j2 = Arr xs2" and x3: "row ! j3 = Arr xs3"
    and m1: "mset ys1 = mset xs1" and m2: "mset ys2 = mset xs2" and m3: "mset ys3 = mset xs3"
  shows "\<exists>u1 u2.
           sort_first_cell ''pcodes_power_poles''
             (t\<lparr>t_rows := row[j1 := Arr ys1, j2 := Arr ys2, j3 := Arr ys3] # rest\<rparr>) = Inr u1
           \<and> sort_first_cell ''pcodes_buildings'' u1 = Inr u2
           \<and> sort_first_cell ''pcodes_power_lines'' u2 =
               Inr (t\<lparr>t_rows := row[j1 := Arr (sort xs1), j2 := Arr (sort xs2),
                                      j3 := Arr (sort xs3)] # rest\<rparr>)"
proof -
  have n12: "j1 \<noteq> j2" using col_pos_different [OF c1 c2] by simp
  have n13: "j1 \<noteq> j3" using col_pos_different [OF c1 c3] by simp
  have n23: "j2 \<noteq> j3" using col_pos_different [OF c2 c3] by simp
  let ?R0 = "row[j1 := Arr ys1, j2 := Arr ys2, j3 := Arr ys3]"
  let ?t0 = "t\<lparr>t_rows := ?R0 # rest\<rparr>"
  from upd_same_Arr [OF x1 m1] obtain zs1 where
    z1: "row[j1 := Arr ys1] ! j1 = Arr zs1" "sort zs1 = sort xs1" by blast
  from upd_same_Arr [OF x2 m2] obtain zs2 where
    z2: "row[j2 := Arr ys2] ! j2 = Arr zs2" "sort zs2 = sort xs2" by blast
  from upd_same_Arr [OF x3 m3] obtain zs3 where
    z3: "row[j3 := Arr ys3] ! j3 = Arr zs3" "sort zs3 = sort xs3" by blast
  have r01: "?R0 ! j1 = Arr zs1"
  proof -
    have "?R0 ! j1 = row[j1 := Arr ys1] ! j1" using n12 n13 by simp
    with z1 show ?thesis by simp
  qed
  let ?R1 = "?R0[j1 := Arr (sort xs1)]"
  let ?t1 = "t\<lparr>t_rows := ?R1 # rest\<rparr>"
  have s1: "sort_first_cell ''pcodes_power_poles'' ?t0 = Inr ?t1"
    using sort_first_cell_row [of ?t0 "''pcodes_power_poles''" j1 ?R0 rest zs1] c1 r01 z1(2)
    by simp
  have r12: "?R1 ! j2 = Arr zs2"
  proof -
    have "?R1 ! j2 = row[j1 := Arr ys1, j2 := Arr ys2] ! j2" using n12 n23 by simp
    also have "\<dots> = row[j2 := Arr ys2] ! j2"
      using n12 by (simp add: list_update_swap [of j1 j2])
    finally show ?thesis using z2 by simp
  qed
  let ?R2 = "?R1[j2 := Arr (sort xs2)]"
  let ?t2 = "t\<lparr>t_rows := ?R2 # rest\<rparr>"
  have s2: "sort_first_cell ''pcodes_buildings'' ?t1 = Inr ?t2"
    using sort_first_cell_row [of ?t1 "''pcodes_buildings''" j2 ?R1 rest zs2] c2 r12 z2(2)
    by simp
  have r23: "?R2 ! j3 = Arr zs3"
  proof -
    have "?R2 ! j3 = ?R0 ! j3" using n13 n23 by simp
    also have "\<dots> = row[j3 := Arr ys3] ! j3"
    proof (cases "j3 < length row")
      case True
      then show ?thesis by simp
    next
      case False
      then show ?thesis using n13 n23 by (simp add: list_update_beyond)
    qed
    finally show ?thesis using z3 by simp
  qed
  let ?R3 = "?R2[j3 := Arr (sort xs3)]"
  have s3: "sort_first_cell ''pcodes_power_lines'' ?t2 = Inr (t\<lparr>t_rows := ?R3 # rest\<rparr>)"
    using sort_first_cell_row [of ?t2 "''pcodes_power_lines''" j3 ?R2 rest zs3] c3 r23 z3(2)
    by simp
  have "?R3 = row[j1 := Arr (sort xs1), j2 := Arr (sort xs2), j3 := Arr (sort xs3)]"
    using n12 n13 n23 by (simp add: list_eq_iff_nth_eq nth_list_update_gen)
  with s1 s2 s3 show ?thesis by auto
qed

lemma prenormalize_chain:
  "prenormalize l r = Inr (l', r') \<longleftrightarrow>
     (\<exists>l1 l2 r1 r2.
        sort_first_cell ''pcodes_power_poles'' l = Inr l1
        \<and> sort_first_cell ''pcodes_buildings'' l1 = Inr l2
        \<and> sort_first_cell ''pcodes_power_lines'' l2 = Inr l'
        \<and> sort_first_cell ''pcodes_power_poles'' r = Inr r1
        \<and> sort_first_cell ''pcodes_buildings'' r1 = Inr r2
        \<and> sort_first_cell ''pcodes_power_lines'' r2 = Inr r')"
  by (auto simp: prenormalize_def sort_both_def split: sum.splits)

lemma compare_data_cong:
  "prenormalize l2 r2 = prenormalize l r \<Longrightarrow>
     compare_data l2 r2 ic ig = compare_data l r ic ig"
  by (simp add: compare_data_def prepare_def load_and_index_def)


text \<open>
  C5 (as stated): every cell of the three columns is sorted, so that an order difference
  within any cell never registers. On two tables of two rows whose arrays differ in order
  only, the second row of \<open>pcodes_power_poles\<close> is reported as a mismatch.
\<close>

theorem order_difference_in_second_row_registers:
  "compare_data order_left order_right None None =
     Inr \<lparr> match = False, data_match = False, right_duplicate = False,
           left_duplicate = False, left_only_columns = None, right_only_columns = None,
           index_match = True, left_index_duplicates = None, right_index_duplicates = None,
           common_index_count = 2, left_index_count = 2, right_index_count = 2,
           left_only_indexes = [], right_only_indexes = [],
           column_results =
             [(''pcodes_power_poles'',
               \<lparr> dtype_match = True, left_dtype = Object, right_dtype = Object,
                 mismatch_percent = 50, mismatch_number = 1,
                 mismatch_data =
                   \<lparr> md_rows = [([Num 1], Arr [2, 1], Arr [1, 2])], md_pct = None \<rparr> \<rparr>)] \<rparr>"
  by code_simp

text \<open>
  C5 (amended): before any comparison, in each of the two tables, the cell of the first
  row (label 0) in each of the columns \<open>pcodes_power_poles\<close>, \<open>pcodes_buildings\<close>,
  \<open>pcodes_power_lines\<close> is replaced by its sorted array; every other cell, and every
  other row, is left as it was loaded. So an order difference within these three cells of
  the first row does not register: replacing them, in either table, by arrays with the
  same elements in another order leaves the outcome of \<open>compare_data\<close> unchanged.
\<close>

theorem first_row_order_does_not_register:
  assumes "prenormalize l r = Inr (l', r')"
  shows "(\<exists>row rest j1 j2 j3 xs1 xs2 xs3.
           t_rows l = row # rest
           \<and> col_pos (t_columns l) ''pcodes_power_poles'' = Some j1
           \<and> col_pos (t_columns l) ''pcodes_buildings'' = Some j2
           \<and> col_pos (t_columns l) ''pcodes_power_lines'' = Some j3
           \<and> row ! j1 = Arr xs1 \<and> row ! j2 = Arr xs2 \<and> row ! j3 = Arr xs3
           \<and> l' = l\<lparr>t_rows := row[j1 := Arr (sort xs1), j2 := Arr (sort xs2),
                                     j3 := Arr (sort xs3)] # rest\<rparr>
           \<and> (\<forall>ys1 ys2 ys3.
                 mset ys1 = mset xs1 \<and> mset ys2 = mset xs2 \<and> mset ys3 = mset xs3 \<longrightarrow>
                 compare_data
                   (l\<lparr>t_rows := row[j1 := Arr ys1, j2 := Arr ys2, j3 := Arr ys3] # rest\<rparr>)
                   r ic ig
                 = compare_data l r ic ig))
       \<and> (\<exists>row rest j1 j2 j3 xs1 xs2 xs3.
           t_rows r = row # rest
           \<and> col_pos (t_columns r) ''pcodes_power_poles'' = Some j1
           \<and> col_pos (t_columns r) ''pcodes_buildings'' = Some j2
           \<and> col_pos (t_columns r) ''pcodes_power_lines'' = Some j3
           \<and> row ! j1 = Arr xs1 \<and> row ! j2 = Arr xs2 \<and> row ! j3 = Arr xs3
           \<and> r' = r\<lparr>t_rows := row[j1 := Arr (sort xs1), j2 := Arr (sort xs2),
                                     j3 := Arr (sort xs3)] # rest\<rparr>
           \<and> (\<forall>ys1 ys2 ys3.
                 mset ys1 = mset xs1 \<and> mset ys2 = mset xs2 \<and> mset ys3 = mset xs3 \<longrightarrow>
                 compare_data l
                   (r\<lparr>t_rows := row[j1 := Arr ys1, j2 := Arr ys2, j3 := Arr ys3] # rest\<rparr>)
                   ic ig
                 = compare_data l r ic ig))"
proof -
  from assms obtain l1 r1 l2 r2 where
    sl: "sort_first_cell ''pcodes_power_poles'' l = Inr l1"
        "sort_first_cell ''pcodes_buildings'' l1 = Inr l2"
        "sort_first_cell ''pcodes_power_lines'' l2 = Inr l'"
    and sr: "sort_first_cell ''pcodes_power_poles'' r = Inr r1"
        "sort_first_cell ''pcodes_buildings'' r1 = Inr r2"
        "sort_first_cell ''pcodes_power_lines'' r2 = Inr r'"
    unfolding prenormalize_chain by blast
  from sort_first_cells_effect [OF sl] obtain row rest j1 j2 j3 xs1 xs2 xs3 where
    a: "t_rows l = row # rest"
       "col_pos (t_columns l) ''pcodes_power_poles'' = Some j1"
       "col_pos (t_columns l) ''pcodes_buildings'' = Some j2"
       "col_pos (t_columns l) ''pcodes_power_lines'' = Some j3"
       "row ! j1 = Arr xs1" "row ! j2 = Arr xs2" "row ! j3 = Arr xs3"
       "l' = l\<lparr>t_rows := row[j1 := Arr (sort xs1), j2 := Arr (sort xs2),
                               j3 := Arr (sort xs3)] # rest\<rparr>"
    by blast
  have inv_l: "compare_data
                 (l\<lparr>t_rows := row[j1 := Arr ys1, j2 := Arr ys2, j3 := Arr ys3] # rest\<rparr>)
                 r ic ig = compare_data l r ic ig"
    if m: "mset ys1 = mset xs1" "mset ys2 = mset xs2" "mset ys3 = mset xs3"
    for ys1 ys2 ys3
  proof -
    from sort_chain_permuted [OF a(1-7) m] a(8) obtain u1 u2 where
      "sort_first_cell ''pcodes_power_poles''
         (l\<lparr>t_rows := row[j1 := Arr ys1, j2 := Arr ys2, j3 := Arr ys3] # rest\<rparr>) = Inr u1"
      "sort_first_cell ''pcodes_buildings'' u1 = Inr u2"
      "sort_first_cell ''pcodes_power_lines'' u2 = Inr l'"
      by auto
    with sr have
      "prenormalize (l\<lparr>t_rows := row[j1 := Arr ys1, j2 := Arr ys2, j3 := Arr ys3] # rest\<rparr>) r
         = Inr (l', r')"
      unfolding prenormalize_chain by blast
    with assms show ?thesis by (intro compare_data_cong) simp
  qed
  from sort_first_cells_effect [OF sr] obtain row' rest' i1 i2 i3 zs1 zs2 zs3 where
    b: "t_rows r = row' # rest'"
       "col_pos (t_columns r) ''pcodes_power_poles'' = Some i1"
       "col_pos (t_columns r) ''pcodes_buildings'' = Some i2"
       "col_pos (t_columns r) ''pcodes_power_lines'' = Some i3"
       "row' ! i1 = Arr zs1" "row' ! i2 = Arr zs2" "row' ! i3 = Arr zs3"
       "r' = r\<lparr>t_rows := row'[i1 := Arr (sort zs1), i2 := Arr (sort zs2),
                               i3 := Arr (sort zs3)] # rest'\<rparr>"
    by blast
  have inv_r: "compare_data l
                 (r\<lparr>t_rows := row'[i1 := Arr ys1, i2 := Arr ys2, i3 := Arr ys3] # rest'\<rparr>)
                 ic ig = compare_data l r ic ig"
    if m: "mset ys1 = mset zs1" "mset ys2 = mset zs2" "mset ys3 = mset zs3"
    for ys1 ys2 ys3
  proof -
    from sort_chain_permuted [OF b(1-7) m] b(8) obtain u1 u2 where
      "sort_first_cell ''pcodes_power_poles''
         (r\<lparr>t_rows := row'[i1 := Arr ys1, i2 := Arr ys2, i3 := Arr ys3] # rest'\<rparr>) = Inr u1"
      "sort_first_cell ''pcodes_buildings'' u1 = Inr u2"
      "sort_first_cell ''pcodes_power_lines'' u2 = Inr r'"
      by auto
    with sl have
      "prenormalize l (r\<lparr>t_rows := row'[i1 := Arr ys1, i2 := Arr ys2, i3 := Arr ys3] # rest'\<rparr>)
         = Inr (l', r')"
      unfolding prenormalize_chain by blast
    with assms show ?thesis by (intro compare_data_cong) simp
  qed
  have left: "\<exists>row rest j1 j2 j3 xs1 xs2 xs3.
           t_rows l = row # rest
           \<and> col_pos (t_columns l) ''pcodes_power_poles'' = Some j1
           \<and> col_pos (t_columns l) ''pcodes_buildings'' = Some j2
           \<and> col_pos (t_columns l) ''pcodes_power_lines'' = Some j3
           \<and> row ! j1 = Arr xs1 \<and> row ! j2 = Arr xs2 \<and> row ! j3 = Arr xs3
           \<and> l' = l\<lparr>t_rows := row[j1 := Arr (sort xs1), j2 := Arr (sort xs2),
                                     j3 := Arr (sort xs3)] # rest\<rparr>
           \<and> (\<forall>ys1 ys2 ys3.
                 mset ys1 = mset xs1 \<and> mset ys2 = mset xs2 \<and> mset ys3 = mset xs3 \<longrightarrow>
                 compare_data
                   (l\<lparr>t_rows := row[j1 := Arr ys1, j2 := Arr ys2, j3 := Arr ys3] # rest\<rparr>)
                   r ic ig
                 = compare_data l r ic ig)"
    apply (rule exI [of _ row], rule exI [of _ rest])
    apply (rule exI [of _ j1], rule exI [of _ j2], rule exI [of _ j3])
    apply (rule exI [of _ xs1], rule exI [of _ xs2], rule exI [of _ xs3])
    using a inv_l by simp
  have right: "\<exists>row rest j1 j2 j3 xs1 xs2 xs3.
           t_rows r = row # rest
           \<and> col_pos (t_columns r) ''pcodes_power_poles'' = Some j1
           \<and> col_pos (t_columns r) ''pcodes_buildings'' = Some j2
           \<and> col_pos (t_columns r) ''pcodes_power_lines'' = Some j3
           \<and> row ! j1 = Arr xs1 \<and> row ! j2 = Arr xs2 \<and> row ! j3 = Arr xs3
           \<and> r' = r\<lparr>t_rows := row[j1 := Arr (sort xs1), j2 := Arr (sort xs2),
                                     j3 := Arr (sort xs3)] # rest\<rparr>
           \<and> (\<forall>ys1 ys2 ys3.
                 mset ys1 = mset xs1 \<and> mset ys2 = mset xs2 \<and> mset ys3 = mset xs3 \<longrightarrow>
                 compare_data l
                   (r\<lparr>t_rows := row[j1 := Arr ys1, j2 := Arr ys2, j3 := Arr ys3] # rest\<rparr>)
                   ic ig
                 = compare_data l r ic ig)"
    apply (rule exI [of _ row'], rule exI [of _ rest'])
    apply (rule exI [of _ i1], rule exI [of _ i2], rule exI [of _ i3])
    apply (rule exI [of _ zs1], rule exI [of _ zs2], rule exI [of _ zs3])
    using b inv_r by simp
  from left right show ?thesis by (rule conjI)
qed

text \<open>
  On the two tables of two rows, and on a table against a copy of itself whose first-row
  array is in another order: the copy matches, with no column result.
\<close>

theorem first_row_order_does_not_register_witness:
  "prenormalize order_left order_right =
     Inr (order_left\<lparr>t_rows := [[Arr [1, 2], Arr [], Arr []], [Arr [2, 1], Arr [], Arr []]]\<rparr>,
          order_right)
   \<and> mset [1, 2] = mset [2, 1 :: int]
   \<and> compare_data
       (order_left\<lparr>t_rows := [[Arr [1, 2], Arr [], Arr []], [Arr [2, 1], Arr [], Arr []]]\<rparr>)
       order_right None None
     = compare_data order_left order_right None None
   \<and> compare_data order_left
       (order_right\<lparr>t_rows := [[Arr [2, 1], Arr [], Arr []], [Arr [1, 2], Arr [], Arr []]]\<rparr>)
       None None
     = compare_data order_left order_right None None
   \<and> compare_data
       (order_right\<lparr>t_rows := [[Arr [2, 1], Arr [], Arr []], [Arr [1, 2], Arr [], Arr []]]\<rparr>)
       order_right None None
     = Inr \<lparr> match = True, data_match = True, right_duplicate = False,
             left_duplicate = False, left_only_columns = None, right_only_columns = None,
             index_match = True, left_index_duplicates = None,
             right_index_duplicates = None, common_index_count = 2, left_index_count = 2,
             right_index_count = 2, left_only_indexes = [], right_only_indexes = [],
             column_results = [] \<rparr>"
proof -
  have h: "prenormalize order_left order_right =
     Inr (order_left\<lparr>t_rows := [[Arr [1, 2], Arr [], Arr []], [Arr [2, 1], Arr [], Arr []]]\<rparr>,
          order_right)"
    by code_simp
  have p: "col_pos pcodes_columns ''pcodes_power_poles'' = Some 0"
          "col_pos pcodes_columns ''pcodes_buildings'' = Some 1"
          "col_pos pcodes_columns ''pcodes_power_lines'' = Some 2"
    by code_simp+
  have ms: "mset [1, 2] = mset [2, 1 :: int]" by simp
  from first_row_order_does_not_register [OF h, of None None]
  obtain row rest j1 j2 j3 xs1 xs2 xs3 where
    a: "t_rows order_left = row # rest"
       "col_pos (t_columns order_left) ''pcodes_power_poles'' = Some j1"
       "col_pos (t_columns order_left) ''pcodes_buildings'' = Some j2"
       "col_pos (t_columns order_left) ''pcodes_power_lines'' = Some j3"
       "row ! j1 = Arr xs1" "row ! j2 = Arr xs2" "row ! j3 = Arr xs3"
    and inv: "\<And>ys1 ys2 ys3. mset ys1 = mset xs1 \<Longrightarrow> mset ys2 = mset xs2 \<Longrightarrow>
                mset ys3 = mset xs3 \<Longrightarrow>
                compare_data
                  (order_left\<lparr>t_rows := row[j1 := Arr ys1, j2 := Arr ys2, j3 := Arr ys3] # rest\<rparr>)
                  order_right None None
                = compare_data order_left order_right None None"
    by blast
  from first_row_order_does_not_register [OF h, of None None]
  obtain row' rest' i1 i2 i3 zs1 zs2 zs3 where
    b: "t_rows order_right = row' # rest'"
       "col_pos (t_columns order_right) ''pcodes_power_poles'' = Some i1"
       "col_pos (t_columns order_right) ''pcodes_buildings'' = Some i2"
       "col_pos (t_columns order_right) ''pcodes_power_lines'' = Some i3"
       "row' ! i1 = Arr zs1" "row' ! i2 = Arr zs2" "row' ! i3 = Arr zs3"
    and inv': "\<And>ys1 ys2 ys3. mset ys1 = mset zs1 \<Longrightarrow> mset ys2 = mset zs2 \<Longrightarrow>
                mset ys3 = mset zs3 \<Longrightarrow>
                compare_data order_left
                  (order_right\<lparr>t_rows := row'[i1 := Arr ys1, i2 := Arr ys2, i3 := Arr ys3] # rest'\<rparr>)
                  None None
                = compare_data order_left order_right None None"
    by blast
  from a p have l: "row = [Arr [2, 1], Arr [], Arr []]" "rest = [[Arr [2, 1], Arr [], Arr []]]"
    "j1 = 0" "j2 = 1" "j3 = 2"
    by (auto simp: order_left_def)
  with a have lx: "xs1 = [2, 1]" "xs2 = []" "xs3 = []" by simp_all
  from b p have r: "row' = [Arr [1, 2], Arr [], Arr []]" "rest' = [[Arr [1, 2], Arr [], Arr []]]"
    "i1 = 0" "i2 = 1" "i3 = 2"
    by (auto simp: order_right_def)
  with b have rx: "zs1 = [1, 2]" "zs2 = []" "zs3 = []" by simp_all
  have "compare_data
       (order_left\<lparr>t_rows := [[Arr [1, 2], Arr [], Arr []], [Arr [2, 1], Arr [], Arr []]]\<rparr>)
       order_right None None
     = compare_data order_left order_right None None"
    using inv [of "[1, 2]" "[]" "[]"] ms unfolding l lx by simp
  moreover have "compare_data order_left
       (order_right\<lparr>t_rows := [[Arr [2, 1], Arr [], Arr []], [Arr [1, 2], Arr [], Arr []]]\<rparr>)
       None None
     = compare_data order_left order_right None None"
    using inv' [of "[2, 1]" "[]" "[]"] ms unfolding r rx by simp
  moreover have "compare_data
       (order_right\<lparr>t_rows := [[Arr [2, 1], Arr [], Arr []], [Arr [1, 2], Arr [], Arr []]]\<rparr>)
       order_right None None
     = Inr \<lparr> match = True, data_match = True, right_duplicate = False,
             left_duplicate = False, left_only_columns = None, right_only_columns = None,
             index_match = True, left_index_duplicates = None,
             right_index_duplicates = None, common_index_count = 2, left_index_count = 2,
             right_index_count = 2, left_only_indexes = [], right_only_indexes = [],
             column_results = [] \<rparr>"
  proof -
    have h2: "prenormalize order_right order_right = Inr (order_right, order_right)"
      by code_simp
    have e: "compare_data order_right order_right None None
       = Inr \<lparr> match = True, data_match = True, right_duplicate = False,
             left_duplicate = False, left_only_columns = None, right_only_columns = None,
             index_match = True, left_index_duplicates = None,
             right_index_duplicates = None, common_index_count = 2, left_index_count = 2,
             right_index_count = 2, left_only_indexes = [], right_only_indexes = [],
             column_results = [] \<rparr>"
      by code_simp
    from first_row_order_does_not_register [OF h2, of None None]
    obtain row2 rest2 k1 k2 k3 us1 us2 us3 where
      c: "t_rows order_right = row2 # rest2"
         "col_pos (t_columns order_right) ''pcodes_power_poles'' = Some k1"
         "col_pos (t_columns order_right) ''pcodes_buildings'' = Some k2"
         "col_pos (t_columns order_right) ''pcodes_power_lines'' = Some k3"
         "row2 ! k1 = Arr us1" "row2 ! k2 = Arr us2" "row2 ! k3 = Arr us3"
      and inv2: "\<And>ys1 ys2 ys3. mset ys1 = mset us1 \<Longrightarrow> mset ys2 = mset us2 \<Longrightarrow>
                mset ys3 = mset us3 \<Longrightarrow>
                compare_data
                  (order_right\<lparr>t_rows := row2[k1 := Arr ys1, k2 := Arr ys2, k3 := Arr ys3] # rest2\<rparr>)
                  order_right None None
                = compare_data order_right order_right None None"
      by blast
    from c p have r2: "row2 = [Arr [1, 2], Arr [], Arr []]"
      "rest2 = [[Arr [1, 2], Arr [], Arr []]]" "k1 = 0" "k2 = 1" "k3 = 2"
      by (auto simp: order_right_def)
    with c have ux: "us1 = [1, 2]" "us2 = []" "us3 = []" by simp_all
    show ?thesis using inv2 [of "[2, 1]" "[]" "[]"] ms e unfolding r2 ux by simp
  qed
  ultimately show ?thesis using h ms by simp
qed

section \<open>Which columns get a result\<close>
































text \<open>
  A key that is a NaN is in no intersection of two Python sets. Two tables keyed by a
  float64 column, with the same declared types, that differ in \<open>name\<close> on the row of the NaN
  key only, get a column result for \<open>name\<close> with \<open>dtype_match\<close> true and
  \<open>mismatch_number = 0\<close>.
\<close>

lemma nan_key_mismatch_not_counted:
  "compare_data nan_key_left nan_key_right (Some [''id'']) None =
     Inr \<lparr> match = False, data_match = False, right_duplicate = False,
           left_duplicate = False, left_only_columns = None, right_only_columns = None,
           index_match = True, left_index_duplicates = None, right_index_duplicates = None,
           common_index_count = 2, left_index_count = 2, right_index_count = 2,
           left_only_indexes = [], right_only_indexes = [],
           column_results =
             [(''name'',
               \<lparr> dtype_match = True, left_dtype = Object, right_dtype = Object,
                 mismatch_percent = 0, mismatch_number = 0,
                 mismatch_data = \<lparr> md_rows = [], md_pct = None \<rparr> \<rparr>)] \<rparr>"
  by code_simp



end
